theory Spec2Isabelle
  imports Complex_Main "HOL-Library.AList" "HOL-Library.Sublist"
begin

section \<open>Data model of \<open>Whiteboard.tsx\<close>\<close>

text \<open>
  JavaScript numbers are idealised as \<open>real\<close>; the component only stores coordinates and
  sizes and adds small offsets to them. Record fields carry a short prefix because a bare
  \<open>x\<close>, \<open>id\<close> or \<open>size\<close> would shadow variables and HOL constants.
\<close>

record Point =
  px :: real
  py :: real

text \<open>
  Point arrays are JavaScript objects: \<open>commitStroke\<close> stores in the committed stroke the
  very array that \<open>currentPointsRef\<close> holds, and \<open>handlePointerMove\<close> pushes into that
  array in place. Arrays therefore live in a store, and a stroke holds an address.
  \<open>None\<close> is a payload whose \<open>points\<close> is missing or null.
\<close>

type_synonym addr = nat

record Stroke =
  s_id :: string
  s_points :: "addr option"
  s_color :: string
  s_size :: real
  s_tool :: string
  s_userId :: string

record RemoteCursor =
  c_userId :: string
  c_userName :: string
  c_userColor :: string
  c_x :: real
  c_y :: real
  c_timestamp :: nat

text \<open>A record of the presence channel, as \<open>track\<close> publishes it.\<close>

record presence =
  user_id :: string
  user_name :: string
  user_color :: string
  p_x :: real
  p_y :: real
  p_timestamp :: nat

text \<open>A row of \<open>whiteboard_strokes\<close> as the load and the INSERT payload deliver it.\<close>

record db_row =
  r_id :: string
  r_points :: "Point list option"
  r_color :: string
  r_size :: real
  r_tool :: string
  r_user_id :: string

text \<open>The object \<open>commitStroke\<close> passes to \<open>insert\<close>; the points are serialised at the call.\<close>

record insert_row =
  i_room_id :: string
  i_user_id :: string
  i_user_name :: string
  i_user_color :: string
  i_points :: "Point list"
  i_color :: string
  i_size :: real
  i_tool :: string

section \<open>The 2D drawing context\<close>

text \<open>
  The canvas context is an external object. It is modelled by the attributes the component
  sets, the stack of \<open>save\<close>/\<open>restore\<close>, the current path, and the list of what has been
  painted on the surface since it was last cleared. Every painted item records the
  attributes in force when it was painted. \<open>clearRect\<close> is only ever called on the whole
  backing store, and is modelled as emptying the surface.
\<close>

record draw_state =
  globalCompositeOperation :: string
  strokeStyle :: string
  fillStyle :: string
  lineWidth :: real
  lineJoin :: string
  lineCap :: string
  font :: string

datatype path_seg =
    MoveTo real real
  | LineTo real real
  | Arc real real real real real

datatype paint =
    FillRect draw_state real real real real
  | StrokePath draw_state "path_seg list"
  | FillPath draw_state "path_seg list"
  | FillText draw_state string real real

record ctx2d =
  ds :: draw_state
  stack :: "draw_state list"
  path :: "path_seg list"
  surface :: "paint list"

definition ctx_save :: "ctx2d \<Rightarrow> ctx2d" where
  "ctx_save c = c\<lparr>stack := ds c # stack c\<rparr>"

definition ctx_restore :: "ctx2d \<Rightarrow> ctx2d" where
  "ctx_restore c = (case stack c of [] \<Rightarrow> c | d # rest \<Rightarrow> c\<lparr>ds := d, stack := rest\<rparr>)"

definition clearRect :: "real \<Rightarrow> real \<Rightarrow> real \<Rightarrow> real \<Rightarrow> ctx2d \<Rightarrow> ctx2d" where
  "clearRect x0 y0 w h c = c\<lparr>surface := []\<rparr>"

definition fillRect :: "real \<Rightarrow> real \<Rightarrow> real \<Rightarrow> real \<Rightarrow> ctx2d \<Rightarrow> ctx2d" where
  "fillRect x0 y0 w h c = c\<lparr>surface := surface c @ [FillRect (ds c) x0 y0 w h]\<rparr>"

definition set_globalCompositeOperation :: "string \<Rightarrow> ctx2d \<Rightarrow> ctx2d" where
  "set_globalCompositeOperation v c = c\<lparr>ds := (ds c)\<lparr>globalCompositeOperation := v\<rparr>\<rparr>"

definition set_strokeStyle :: "string \<Rightarrow> ctx2d \<Rightarrow> ctx2d" where
  "set_strokeStyle v c = c\<lparr>ds := (ds c)\<lparr>strokeStyle := v\<rparr>\<rparr>"

definition set_fillStyle :: "string \<Rightarrow> ctx2d \<Rightarrow> ctx2d" where
  "set_fillStyle v c = c\<lparr>ds := (ds c)\<lparr>fillStyle := v\<rparr>\<rparr>"

definition set_lineWidth :: "real \<Rightarrow> ctx2d \<Rightarrow> ctx2d" where
  "set_lineWidth v c = c\<lparr>ds := (ds c)\<lparr>lineWidth := v\<rparr>\<rparr>"

definition set_lineJoin :: "string \<Rightarrow> ctx2d \<Rightarrow> ctx2d" where
  "set_lineJoin v c = c\<lparr>ds := (ds c)\<lparr>lineJoin := v\<rparr>\<rparr>"

definition set_lineCap :: "string \<Rightarrow> ctx2d \<Rightarrow> ctx2d" where
  "set_lineCap v c = c\<lparr>ds := (ds c)\<lparr>lineCap := v\<rparr>\<rparr>"

definition set_font :: "string \<Rightarrow> ctx2d \<Rightarrow> ctx2d" where
  "set_font v c = c\<lparr>ds := (ds c)\<lparr>font := v\<rparr>\<rparr>"

definition beginPath :: "ctx2d \<Rightarrow> ctx2d" where
  "beginPath c = c\<lparr>path := []\<rparr>"

definition moveTo :: "real \<Rightarrow> real \<Rightarrow> ctx2d \<Rightarrow> ctx2d" where
  "moveTo x0 y0 c = c\<lparr>path := path c @ [MoveTo x0 y0]\<rparr>"

definition lineTo :: "real \<Rightarrow> real \<Rightarrow> ctx2d \<Rightarrow> ctx2d" where
  "lineTo x0 y0 c = c\<lparr>path := path c @ [LineTo x0 y0]\<rparr>"

definition arc :: "real \<Rightarrow> real \<Rightarrow> real \<Rightarrow> real \<Rightarrow> real \<Rightarrow> ctx2d \<Rightarrow> ctx2d" where
  "arc x0 y0 r a0 a1 c = c\<lparr>path := path c @ [Arc x0 y0 r a0 a1]\<rparr>"

definition ctx_stroke :: "ctx2d \<Rightarrow> ctx2d" where
  "ctx_stroke c = c\<lparr>surface := surface c @ [StrokePath (ds c) (path c)]\<rparr>"

definition ctx_fill :: "ctx2d \<Rightarrow> ctx2d" where
  "ctx_fill c = c\<lparr>surface := surface c @ [FillPath (ds c) (path c)]\<rparr>"

definition fillText :: "string \<Rightarrow> real \<Rightarrow> real \<Rightarrow> ctx2d \<Rightarrow> ctx2d" where
  "fillText t x0 y0 c = c\<lparr>surface := surface c @ [FillText (ds c) t x0 y0]\<rparr>"

record canvas =
  cv_width :: real
  cv_height :: real
  rect_left :: real
  rect_top :: real
  rect_width :: real
  rect_height :: real
  ctx :: "ctx2d option"

section \<open>Component state\<close>

text \<open>
  One record holds what the component keeps between events: the props that identify the
  session, the React state (\<open>strokes\<close>, \<open>remoteCursors\<close>), the refs, the array store, and
  what has been handed to the collaborators (rows given to \<open>insert\<close>, presence records
  given to \<open>track\<close>, lines given to \<open>console.error\<close>). \<open>remoteCursors\<close> is a JavaScript
  \<open>Map\<close>: an association list in insertion order with distinct keys.
  The two \<open>dirty\<close> flags record that a state setter was called, so that the effects
  depending on that state run when the handler has returned.
\<close>

datatype error = TypeError

record wb =
  roomId :: string
  userId :: string
  userName :: string
  userColor :: string
  canvasRef :: "canvas option"
  strokes :: "Stroke list"
  strokesRef :: "Stroke list"
  remoteCursors :: "(string \<times> RemoteCursor) list"
  cursorChannel :: bool
  isDrawingRef :: bool
  currentPointsRef :: "addr option"
  currentColorRef :: string
  currentToolRef :: string
  brushSizeRef :: real
  heap :: "addr \<Rightarrow> Point list"
  next_addr :: addr
  inserted :: "insert_row list"
  pending_writes :: nat
  tracked :: "presence list"
  console :: "string list"
  strokes_dirty :: bool
  cursors_dirty :: bool

definition alloc :: "Point list \<Rightarrow> wb \<Rightarrow> addr \<times> wb" where
  "alloc ps st =
     (next_addr st, st\<lparr>heap := (heap st)(next_addr st := ps), next_addr := Suc (next_addr st)\<rparr>)"

section \<open>The renderer\<close>

text \<open>
  The inner loop \<open>for (let i = 1; i < points.length; i++) ctx.lineTo(...)\<close> runs over the
  points after the first.
\<close>

fun lineTo_all :: "Point list \<Rightarrow> ctx2d \<Rightarrow> ctx2d" where
  "lineTo_all [] c = c"
| "lineTo_all (p # ps) c = lineTo_all ps (lineTo (px p) (py p) c)"

text \<open>
  \<open>ctx.moveTo(points[0].x, points[0].y)\<close> followed by the loop. Reading \<open>.x\<close> of
  \<open>points[0]\<close> on an empty array throws a TypeError.
\<close>

definition trace_points :: "Point list \<Rightarrow> ctx2d \<Rightarrow> error + ctx2d" where
  "trace_points pts c =
     (case pts of
        [] \<Rightarrow> Inl TypeError
      | p # rest \<Rightarrow> Inr (lineTo_all rest (moveTo (px p) (py p) c)))"

text \<open>The body of the loop over \<open>strokesRef.current\<close>, lines 133 to 149.\<close>

definition draw_stroke :: "(addr \<Rightarrow> Point list) \<Rightarrow> Stroke \<Rightarrow> ctx2d \<Rightarrow> error + ctx2d" where
  "draw_stroke h s c =
     (case s_points s of
        None \<Rightarrow> Inr c
      | Some a \<Rightarrow>
          if length (h a) < 2 then Inr c
          else
            let c1 = (if s_tool s = ''eraser''
                      then set_globalCompositeOperation ''destination-out'' c
                      else set_strokeStyle (s_color s)
                             (set_globalCompositeOperation ''source-over'' c));
                c2 = beginPath (set_lineWidth (s_size s) c1)
            in (case trace_points (h a) c2 of
                  Inl e \<Rightarrow> Inl e
                | Inr c3 \<Rightarrow> Inr (ctx_stroke c3)))"

fun draw_strokes :: "(addr \<Rightarrow> Point list) \<Rightarrow> Stroke list \<Rightarrow> ctx2d \<Rightarrow> error + ctx2d" where
  "draw_strokes h [] c = Inr c"
| "draw_strokes h (s # ss) c =
     (case draw_stroke h s c of Inl e \<Rightarrow> Inl e | Inr c' \<Rightarrow> draw_strokes h ss c')"

text \<open>The transient stroke, lines 151 to 168; it reads the three latest-value refs.\<close>

definition draw_pending ::
  "Point list option \<Rightarrow> string \<Rightarrow> string \<Rightarrow> real \<Rightarrow> ctx2d \<Rightarrow> error + ctx2d" where
  "draw_pending pending tool col sz c =
     (case pending of
        None \<Rightarrow> Inr c
      | Some pts \<Rightarrow>
          if length pts \<ge> 2 then
            let c1 = beginPath c;
                c2 = (if tool = ''eraser''
                      then set_globalCompositeOperation ''destination-out'' c1
                      else set_strokeStyle col
                             (set_globalCompositeOperation ''source-over'' c1));
                c3 = set_lineWidth sz c2
            in (case trace_points pts c3 of
                  Inl e \<Rightarrow> Inl e
                | Inr c4 \<Rightarrow>
                    Inr (set_globalCompositeOperation ''source-over'' (ctx_stroke c4)))
          else Inr c)"

text \<open>The callback of \<open>remoteCursors.forEach\<close>, lines 171 to 179.\<close>

definition draw_cursor :: "RemoteCursor \<Rightarrow> ctx2d \<Rightarrow> ctx2d" where
  "draw_cursor cur c =
     (let c1 = set_fillStyle (c_userColor cur) c;
          c2 = beginPath c1;
          c3 = arc (c_x cur) (c_y cur) 8 0 (pi * 2) c2;
          c4 = ctx_fill c3;
          c5 = set_font ''12px Inter, sans-serif'' c4;
          c6 = set_fillStyle ''#ffffff'' c5
      in fillText (c_userName cur) (c_x cur + 12) (c_y cur + 4) c6)"

text \<open>
  \<open>redrawAll\<close>, lines 117 to 182. The cursor map is the one its closure captured (the
  callback is rebuilt whenever \<open>remoteCursors\<close> changes), so it is a parameter; the
  strokes, the pending points and tool, colour and size are read from the refs.
\<close>

definition redraw_ctx ::
  "canvas \<Rightarrow> (string \<times> RemoteCursor) list \<Rightarrow> wb \<Rightarrow> ctx2d \<Rightarrow> error + ctx2d" where
  "redraw_ctx cv cursors st c =
     (let c1 = ctx_save c;
          c2 = clearRect 0 0 (cv_width cv) (cv_height cv) c1;
          c3 = set_fillStyle ''#1e293b'' c2;
          c4 = fillRect 0 0 (rect_width cv) (rect_height cv) c3;
          c5 = set_lineCap ''round'' (set_lineJoin ''round'' c4)
      in case draw_strokes (heap st) (strokesRef st) c5 of
           Inl e \<Rightarrow> Inl e
         | Inr c6 \<Rightarrow>
             (case draw_pending (map_option (heap st) (currentPointsRef st))
                     (currentToolRef st) (currentColorRef st) (brushSizeRef st) c6 of
                Inl e \<Rightarrow> Inl e
              | Inr c7 \<Rightarrow> Inr (ctx_restore (fold draw_cursor (map snd cursors) c7))))"

definition redrawAll :: "(string \<times> RemoteCursor) list \<Rightarrow> wb \<Rightarrow> error + wb" where
  "redrawAll cursors st =
     (case canvasRef st of
        None \<Rightarrow> Inr st
      | Some cv \<Rightarrow>
          (case ctx cv of
             None \<Rightarrow> Inr st
           | Some c \<Rightarrow>
               (case redraw_ctx cv cursors st c of
                  Inl e \<Rightarrow> Inl e
                | Inr c' \<Rightarrow> Inr (st\<lparr>canvasRef := Some (cv\<lparr>ctx := Some c'\<rparr>)\<rparr>))))"

text \<open>
  \<open>drawSegment\<close>, lines 308 to 329. \<open>from\<close> is \<open>pending[pending.length - 1]\<close>, which is
  \<open>undefined\<close> for an empty array; \<open>from.x\<close> then throws.
\<close>

definition drawSegment :: "Point option \<Rightarrow> Point \<Rightarrow> wb \<Rightarrow> error + wb" where
  "drawSegment p_from p_to st =
     (case canvasRef st of
        None \<Rightarrow> Inr st
      | Some cv \<Rightarrow>
          (case ctx cv of
             None \<Rightarrow> Inr st
           | Some c \<Rightarrow>
               let c1 = ctx_save c;
                   c2 = (if currentToolRef st = ''eraser''
                         then set_globalCompositeOperation ''destination-out'' c1
                         else set_strokeStyle (currentColorRef st)
                                (set_globalCompositeOperation ''source-over'' c1));
                   c3 = set_lineWidth (brushSizeRef st) c2;
                   c4 = set_lineCap ''round'' (set_lineJoin ''round'' c3);
                   c5 = beginPath c4
               in (case p_from of
                     None \<Rightarrow> Inl TypeError
                   | Some f \<Rightarrow>
                       let c6 = moveTo (px f) (py f) c5;
                           c7 = lineTo (px p_to) (py p_to) c6;
                           c8 = ctx_restore (ctx_stroke c7)
                       in Inr (st\<lparr>canvasRef := Some (cv\<lparr>ctx := Some c8\<rparr>)\<rparr>))))"

section \<open>Stroke log: remote notifications and the initial load\<close>

text \<open>
  The updater \<open>(prev) => { const next = [...prev, s]; strokesRef.current = next; return next; }\<close>
  is passed to \<open>setStrokes\<close> by the INSERT handler and by \<open>commitStroke\<close> alike. React
  applies it to the current state; here it is applied at the call.
\<close>

definition append_stroke :: "Stroke \<Rightarrow> wb \<Rightarrow> wb" where
  "append_stroke s st =
     (let next = strokes st @ [s]
      in st\<lparr>strokesRef := next, strokes := next, strokes_dirty := True\<rparr>)"

text \<open>A row becomes a stroke whose point array is a fresh object of the store.\<close>

definition stroke_of_row :: "db_row \<Rightarrow> wb \<Rightarrow> Stroke \<times> wb" where
  "stroke_of_row r st =
     (case r_points r of
        None \<Rightarrow>
          (\<lparr>s_id = r_id r, s_points = None, s_color = r_color r, s_size = r_size r,
            s_tool = r_tool r, s_userId = r_user_id r\<rparr>, st)
      | Some ps \<Rightarrow>
          (let (a, st') = alloc ps st
           in (\<lparr>s_id = r_id r, s_points = Some a, s_color = r_color r, s_size = r_size r,
                s_tool = r_tool r, s_userId = r_user_id r\<rparr>, st')))"

text \<open>The INSERT handler, lines 197 to 211.\<close>

definition onInsert :: "db_row \<Rightarrow> wb \<Rightarrow> wb" where
  "onInsert r st = (let (newStroke, st') = stroke_of_row r st in append_stroke newStroke st')"

text \<open>The DELETE handler, lines 220 to 223.\<close>

definition onDelete :: "wb \<Rightarrow> wb" where
  "onDelete st = st\<lparr>strokes := [], strokes_dirty := True, strokesRef := []\<rparr>"

fun parse_rows :: "db_row list \<Rightarrow> wb \<Rightarrow> Stroke list \<times> wb" where
  "parse_rows [] st = ([], st)"
| "parse_rows (r # rs) st =
     (let (s, st1) = stroke_of_row r st;
          (ss, st2) = parse_rows rs st1
      in (s # ss, st2))"

text \<open>
  \<open>loadStrokes\<close> after its query has settled, lines 97 to 114: an error is logged and the
  list is left alone; otherwise the list is replaced by the parsed rows, or by the empty
  list when there is no data.
\<close>

definition loadStrokes_settled :: "string option \<Rightarrow> db_row list option \<Rightarrow> wb \<Rightarrow> wb" where
  "loadStrokes_settled err data st =
     (case err of
        Some e \<Rightarrow> st\<lparr>console := console st @ [''Error loading strokes: '' @ e]\<rparr>
      | None \<Rightarrow>
          (case data of
             Some rows \<Rightarrow>
               (let (parsed, st') = parse_rows rows st
                in st'\<lparr>strokes := parsed, strokes_dirty := True\<rparr>)
           | None \<Rightarrow> st\<lparr>strokes := [], strokes_dirty := True\<rparr>))"

section \<open>Presence\<close>

text \<open>
  The presence state is an object from connection keys to arrays of presence records,
  given here in the order of \<open>Object.keys\<close>. \<open>Map.set\<close> overwrites the value of a key that
  is present and keeps its position, and appends a new key: \<open>AList.update\<close>.
\<close>

definition sync_entry ::
  "string \<Rightarrow> string \<times> presence list option \<Rightarrow> (string \<times> RemoteCursor) list
     \<Rightarrow> (string \<times> RemoteCursor) list" where
  "sync_entry uid entry cursors =
     (case snd entry of
        None \<Rightarrow> cursors
      | Some [] \<Rightarrow> cursors
      | Some (p # rest) \<Rightarrow>
          if user_id p \<noteq> uid
          then AList.update (user_id p)
                 \<lparr>c_userId = user_id p, c_userName = user_name p, c_userColor = user_color p,
                  c_x = p_x p, c_y = p_y p, c_timestamp = p_timestamp p\<rparr> cursors
          else cursors)"

definition sync_cursors ::
  "string \<Rightarrow> (string \<times> presence list option) list \<Rightarrow> (string \<times> RemoteCursor) list" where
  "sync_cursors uid state = fold (sync_entry uid) state []"

text \<open>The handler of the presence \<open>sync\<close> event, lines 237 to 258.\<close>

definition onPresenceSync :: "(string \<times> presence list option) list \<Rightarrow> wb \<Rightarrow> wb" where
  "onPresenceSync state st =
     st\<lparr>remoteCursors := sync_cursors (userId st) state, cursors_dirty := True\<rparr>"

section \<open>Local capture\<close>

definition getPointFromEvent :: "canvas \<Rightarrow> real \<Rightarrow> real \<Rightarrow> Point" where
  "getPointFromEvent cv clientX clientY =
     \<lparr>px = clientX - rect_left cv, py = clientY - rect_top cv\<rparr>"

text \<open>\<open>handlePointerDown\<close>, lines 335 to 341; \<open>button\<close> is \<open>None\<close> when undefined.\<close>

definition handlePointerDown :: "int option \<Rightarrow> real \<Rightarrow> real \<Rightarrow> canvas \<Rightarrow> wb \<Rightarrow> wb" where
  "handlePointerDown button clientX clientY cv st =
     (if button \<noteq> None \<and> button \<noteq> Some 0 then st
      else
        let st1 = st\<lparr>isDrawingRef := True\<rparr>;
            pt = getPointFromEvent cv clientX clientY;
            (a, st2) = alloc [pt] st1
        in st2\<lparr>currentPointsRef := Some a\<rparr>)"

text \<open>\<open>handlePointerMove\<close>, lines 343 to 363; \<open>now\<close> is the value of \<open>Date.now()\<close>.\<close>

definition handlePointerMove :: "real \<Rightarrow> real \<Rightarrow> nat \<Rightarrow> canvas \<Rightarrow> wb \<Rightarrow> error + wb" where
  "handlePointerMove clientX clientY now cv st =
     (let pt = getPointFromEvent cv clientX clientY;
          st1 = (if cursorChannel st
                 then st\<lparr>tracked := tracked st @
                        [\<lparr>user_id = userId st, user_name = userName st,
                          user_color = userColor st, p_x = px pt, p_y = py pt,
                          p_timestamp = now\<rparr>]\<rparr>
                 else st)
      in if \<not> isDrawingRef st1 then Inr st1
         else
           (case currentPointsRef st1 of
              None \<Rightarrow> Inr st1
            | Some a \<Rightarrow>
                let pending = heap st1 a;
                    prev = (if pending = [] then None else Some (last pending));
                    st2 = st1\<lparr>heap := (heap st1)(a := pending @ [pt])\<rparr>
                in drawSegment prev pt st2))"

text \<open>Decimal digits of a number, for the template string \<open>`local-${Date.now()}`\<close>.\<close>

fun string_of_nat :: "nat \<Rightarrow> string" where
  "string_of_nat n =
     (if n < 10 then [char_of (48 + n)]
      else string_of_nat (n div 10) @ [char_of (48 + n mod 10)])"

declare string_of_nat.simps [simp del]

text \<open>
  \<open>commitStroke\<close> up to its \<open>await\<close>, lines 366 to 393: the guard, the optimistic append,
  and the call of \<open>insert\<close>, whose argument reads the refs and serialises the points.
\<close>

definition commitStroke :: "nat \<Rightarrow> wb \<Rightarrow> wb" where
  "commitStroke now st =
     (case currentPointsRef st of
        None \<Rightarrow> st
      | Some a \<Rightarrow>
          if length (heap st a) = 0 then st
          else
            let localStroke =
                  \<lparr>s_id = ''local-'' @ string_of_nat now, s_points = Some a,
                   s_color = currentColorRef st, s_size = brushSizeRef st,
                   s_tool = currentToolRef st, s_userId = userId st\<rparr>;
                st1 = append_stroke localStroke st;
                row =
                  \<lparr>i_room_id = roomId st1, i_user_id = userId st1,
                   i_user_name = userName st1, i_user_color = userColor st1,
                   i_points = heap st1 a, i_color = currentColorRef st1,
                   i_size = brushSizeRef st1, i_tool = currentToolRef st1\<rparr>
            in st1\<lparr>inserted := inserted st1 @ [row],
                   pending_writes := Suc (pending_writes st1)\<rparr>)"

text \<open>
  \<open>commitStroke\<close> after its \<open>await\<close>, lines 395 to 399, run when a pending write settles
  with or without an error.
\<close>

definition commitStroke_settled :: "string option \<Rightarrow> wb \<Rightarrow> wb" where
  "commitStroke_settled err st =
     (let st1 = (case err of
                   None \<Rightarrow> st
                 | Some e \<Rightarrow> st\<lparr>console := console st @ [''Error saving stroke: '' @ e]\<rparr>)
      in st1\<lparr>currentPointsRef := None, pending_writes := pending_writes st1 - 1\<rparr>)"

text \<open>\<open>handlePointerUp\<close>, lines 402 to 407.\<close>

definition handlePointerUp :: "nat \<Rightarrow> wb \<Rightarrow> wb" where
  "handlePointerUp now st =
     (if \<not> isDrawingRef st then st
      else commitStroke now (st\<lparr>isDrawingRef := False\<rparr>))"

section \<open>Events and effects\<close>

text \<open>
  After a handler has called a state setter React renders again and runs the effects whose
  dependencies changed. The effect of line 279 (\<open>strokesRef.current = strokes; redrawAll()\<close>)
  depends on \<open>strokes\<close> and on \<open>redrawAll\<close>, which is rebuilt when \<open>remoteCursors\<close> changes;
  the effect of line 284 (\<open>redrawAll()\<close>) depends on \<open>remoteCursors\<close>.
\<close>

definition flush :: "wb \<Rightarrow> error + wb" where
  "flush st =
     (if strokes_dirty st \<or> cursors_dirty st then
        (case redrawAll (remoteCursors st) (st\<lparr>strokesRef := strokes st\<rparr>) of
           Inl e \<Rightarrow> Inl e
         | Inr st1 \<Rightarrow>
             if cursors_dirty st then
               (case redrawAll (remoteCursors st1) st1 of
                  Inl e \<Rightarrow> Inl e
                | Inr st2 \<Rightarrow> Inr (st2\<lparr>strokes_dirty := False, cursors_dirty := False\<rparr>))
             else Inr (st1\<lparr>strokes_dirty := False, cursors_dirty := False\<rparr>))
      else Inr st)"

text \<open>
  What can happen to a mounted component. The pointer listeners are attached only when the
  canvas exists (line 333). A settlement is delivered only while a write is pending. The
  three \<open>Prop\<close> events are a change of the prop followed by the effect of lines 65 to 67
  that copies it into its ref. Pointer capture, the first \<open>track\<close> on subscription and
  \<open>resizeCanvas\<close> change nothing that the handlers below read, and are left out.
\<close>

datatype event =
    PointerDown "int option" real real
  | PointerMove real real nat
  | PointerUp nat
  | InsertSettled "string option"
  | RemoteInsert db_row
  | RemoteDelete
  | LoadSettled "string option" "db_row list option"
  | PresenceSync "(string \<times> presence list option) list"
  | PropTool string
  | PropColor string
  | PropSize real

fun handle :: "event \<Rightarrow> wb \<Rightarrow> error + wb" where
  "handle (PointerDown button clientX clientY) st =
     (case canvasRef st of
        None \<Rightarrow> Inr st
      | Some cv \<Rightarrow> Inr (handlePointerDown button clientX clientY cv st))"
| "handle (PointerMove clientX clientY now) st =
     (case canvasRef st of
        None \<Rightarrow> Inr st
      | Some cv \<Rightarrow> handlePointerMove clientX clientY now cv st)"
| "handle (PointerUp now) st =
     (case canvasRef st of
        None \<Rightarrow> Inr st
      | Some cv \<Rightarrow> Inr (handlePointerUp now st))"
| "handle (InsertSettled err) st =
     (if pending_writes st = 0 then Inr st else Inr (commitStroke_settled err st))"
| "handle (RemoteInsert r) st = Inr (onInsert r st)"
| "handle RemoteDelete st = Inr (onDelete st)"
| "handle (LoadSettled err data) st = Inr (loadStrokes_settled err data st)"
| "handle (PresenceSync state) st = Inr (onPresenceSync state st)"
| "handle (PropTool t) st = Inr (st\<lparr>currentToolRef := t\<rparr>)"
| "handle (PropColor c) st = Inr (st\<lparr>currentColorRef := c\<rparr>)"
| "handle (PropSize n) st = Inr (st\<lparr>brushSizeRef := n\<rparr>)"

definition step :: "event \<Rightarrow> wb \<Rightarrow> error + wb" where
  "step e st = (case handle e st of Inl err \<Rightarrow> Inl err | Inr st' \<Rightarrow> flush st')"

fun run :: "event list \<Rightarrow> wb \<Rightarrow> error + wb" where
  "run [] st = Inr st"
| "run (e # es) st = (case step e st of Inl err \<Rightarrow> Inl err | Inr st' \<Rightarrow> run es st')"

text \<open>The component as mounted: empty stroke list, empty cursor map, nothing in progress.\<close>

definition default_ds :: draw_state where
  "default_ds =
     \<lparr>globalCompositeOperation = ''source-over'', strokeStyle = ''#000000'',
      fillStyle = ''#000000'', lineWidth = 1, lineJoin = ''miter'', lineCap = ''butt'',
      font = ''10px sans-serif''\<rparr>"

definition mounted ::
  "string \<Rightarrow> string \<Rightarrow> string \<Rightarrow> string \<Rightarrow> string \<Rightarrow> string \<Rightarrow> real \<Rightarrow> canvas option \<Rightarrow> wb" where
  "mounted room uid uname ucolor tool col sz cvo =
     \<lparr>roomId = room, userId = uid, userName = uname, userColor = ucolor,
      canvasRef = cvo, strokes = [], strokesRef = [], remoteCursors = [],
      cursorChannel = True, isDrawingRef = False, currentPointsRef = None,
      currentColorRef = col, currentToolRef = tool, brushSizeRef = sz,
      heap = (\<lambda>a. []), next_addr = 0, inserted = [], pending_writes = 0,
      tracked = [], console = [], strokes_dirty = False, cursors_dirty = False\<rparr>"

section \<open>The picture a full redraw paints\<close>

text \<open>
  Closed descriptions of what the renderer leaves on the surface, used to state what it
  does: the path of a point list, the attributes a tool, colour and size select, and the
  painted items of the committed strokes, of the stroke in progress and of the cursors,
  each from the attributes in force before it. \<open>repaint\<close> and \<open>paint_segment\<close> are
  \<open>redrawAll\<close> and \<open>drawSegment\<close> written with these descriptions; the lemmas below
  prove that the renderer computes exactly them.
\<close>

definition polyline :: "Point list \<Rightarrow> path_seg list" where
  "polyline pts =
     (case pts of [] \<Rightarrow> [] | p # rest \<Rightarrow> MoveTo (px p) (py p) # map (\<lambda>q. LineTo (px q) (py q)) rest)"

definition stroke_points :: "(addr \<Rightarrow> Point list) \<Rightarrow> Stroke \<Rightarrow> Point list" where
  "stroke_points h s = (case s_points s of None \<Rightarrow> [] | Some a \<Rightarrow> h a)"

definition renderable :: "(addr \<Rightarrow> Point list) \<Rightarrow> Stroke \<Rightarrow> bool" where
  "renderable h s = (2 \<le> length (stroke_points h s))"

definition tool_style :: "string \<Rightarrow> string \<Rightarrow> real \<Rightarrow> draw_state \<Rightarrow> draw_state" where
  "tool_style tool col sz d =
     (if tool = ''eraser''
      then d\<lparr>globalCompositeOperation := ''destination-out'', lineWidth := sz\<rparr>
      else d\<lparr>globalCompositeOperation := ''source-over'', strokeStyle := col, lineWidth := sz\<rparr>)"

definition stroke_style :: "Stroke \<Rightarrow> draw_state \<Rightarrow> draw_state" where
  "stroke_style s d = tool_style (s_tool s) (s_color s) (s_size s) d"

fun committed_ds :: "(addr \<Rightarrow> Point list) \<Rightarrow> Stroke list \<Rightarrow> draw_state \<Rightarrow> draw_state" where
  "committed_ds h [] d = d"
| "committed_ds h (s # ss) d = committed_ds h ss (if renderable h s then stroke_style s d else d)"

fun committed_path :: "(addr \<Rightarrow> Point list) \<Rightarrow> Stroke list \<Rightarrow> path_seg list \<Rightarrow> path_seg list" where
  "committed_path h [] p = p"
| "committed_path h (s # ss) p =
     committed_path h ss (if renderable h s then polyline (stroke_points h s) else p)"

fun committed_paints :: "(addr \<Rightarrow> Point list) \<Rightarrow> Stroke list \<Rightarrow> draw_state \<Rightarrow> paint list" where
  "committed_paints h [] d = []"
| "committed_paints h (s # ss) d =
     (if renderable h s
      then StrokePath (stroke_style s d) (polyline (stroke_points h s))
             # committed_paints h ss (stroke_style s d)
      else committed_paints h ss d)"

definition pending_ok :: "Point list option \<Rightarrow> bool" where
  "pending_ok pending = (case pending of None \<Rightarrow> False | Some pts \<Rightarrow> 2 \<le> length pts)"

definition pending_ds ::
  "Point list option \<Rightarrow> string \<Rightarrow> string \<Rightarrow> real \<Rightarrow> draw_state \<Rightarrow> draw_state" where
  "pending_ds pending tool col sz d =
     (if pending_ok pending
      then (tool_style tool col sz d)\<lparr>globalCompositeOperation := ''source-over''\<rparr>
      else d)"

definition pending_path :: "Point list option \<Rightarrow> path_seg list \<Rightarrow> path_seg list" where
  "pending_path pending p = (if pending_ok pending then polyline (the pending) else p)"

definition pending_paints ::
  "Point list option \<Rightarrow> string \<Rightarrow> string \<Rightarrow> real \<Rightarrow> draw_state \<Rightarrow> paint list" where
  "pending_paints pending tool col sz d =
     (if pending_ok pending
      then [StrokePath (tool_style tool col sz d) (polyline (the pending))]
      else [])"

definition cursor_ds :: "draw_state \<Rightarrow> draw_state" where
  "cursor_ds d = d\<lparr>fillStyle := ''#ffffff'', font := ''12px Inter, sans-serif''\<rparr>"

definition cursor_disc :: "RemoteCursor \<Rightarrow> path_seg list" where
  "cursor_disc cur = [Arc (c_x cur) (c_y cur) 8 0 (pi * 2)]"

definition cursor_mark :: "RemoteCursor \<Rightarrow> draw_state \<Rightarrow> paint list" where
  "cursor_mark cur d =
     [FillPath (d\<lparr>fillStyle := c_userColor cur\<rparr>) (cursor_disc cur),
      FillText (cursor_ds d) (c_userName cur) (c_x cur + 12) (c_y cur + 4)]"

fun cursors_paints :: "RemoteCursor list \<Rightarrow> draw_state \<Rightarrow> paint list" where
  "cursors_paints [] d = []"
| "cursors_paints (cur # curs) d = cursor_mark cur d @ cursors_paints curs (cursor_ds d)"

definition cursors_ds :: "RemoteCursor list \<Rightarrow> draw_state \<Rightarrow> draw_state" where
  "cursors_ds curs d = (if curs = [] then d else cursor_ds d)"

definition cursors_path :: "RemoteCursor list \<Rightarrow> path_seg list \<Rightarrow> path_seg list" where
  "cursors_path curs p = (if curs = [] then p else cursor_disc (last curs))"

definition background :: "canvas \<Rightarrow> draw_state \<Rightarrow> paint" where
  "background cv d = FillRect (d\<lparr>fillStyle := ''#1e293b''\<rparr>) 0 0 (rect_width cv) (rect_height cv)"

definition base_ds :: "draw_state \<Rightarrow> draw_state" where
  "base_ds d = d\<lparr>fillStyle := ''#1e293b'', lineJoin := ''round'', lineCap := ''round''\<rparr>"

definition pending_points :: "wb \<Rightarrow> Point list option" where
  "pending_points st = map_option (heap st) (currentPointsRef st)"

definition scene :: "canvas \<Rightarrow> (string \<times> RemoteCursor) list \<Rightarrow> wb \<Rightarrow> draw_state \<Rightarrow> paint list" where
  "scene cv cursors st d =
     (let d1 = base_ds d;
          d2 = committed_ds (heap st) (strokesRef st) d1;
          d3 = pending_ds (pending_points st) (currentToolRef st) (currentColorRef st)
                 (brushSizeRef st) d2
      in background cv d
           # committed_paints (heap st) (strokesRef st) d1
           @ pending_paints (pending_points st) (currentToolRef st) (currentColorRef st)
               (brushSizeRef st) d2
           @ cursors_paints (map snd cursors) d3)"

definition scene_path :: "(string \<times> RemoteCursor) list \<Rightarrow> wb \<Rightarrow> path_seg list \<Rightarrow> path_seg list" where
  "scene_path cursors st p =
     cursors_path (map snd cursors)
       (pending_path (pending_points st) (committed_path (heap st) (strokesRef st) p))"

definition repaint :: "(string \<times> RemoteCursor) list \<Rightarrow> wb \<Rightarrow> wb" where
  "repaint cursors st =
     (case canvasRef st of
        None \<Rightarrow> st
      | Some cv \<Rightarrow>
          (case ctx cv of
             None \<Rightarrow> st
           | Some c \<Rightarrow>
               st\<lparr>canvasRef :=
                    Some (cv\<lparr>ctx := Some (c\<lparr>path := scene_path cursors st (path c),
                                             surface := scene cv cursors st (ds c)\<rparr>)\<rparr>)\<rparr>))"

definition segment_paint :: "wb \<Rightarrow> draw_state \<Rightarrow> Point \<Rightarrow> Point \<Rightarrow> paint" where
  "segment_paint st d f t =
     StrokePath
       ((tool_style (currentToolRef st) (currentColorRef st) (brushSizeRef st) d)
          \<lparr>lineJoin := ''round'', lineCap := ''round''\<rparr>)
       (polyline [f, t])"

definition paint_segment :: "Point \<Rightarrow> Point \<Rightarrow> wb \<Rightarrow> wb" where
  "paint_segment f t st =
     (case canvasRef st of
        None \<Rightarrow> st
      | Some cv \<Rightarrow>
          (case ctx cv of
             None \<Rightarrow> st
           | Some c \<Rightarrow>
               st\<lparr>canvasRef :=
                    Some (cv\<lparr>ctx := Some (c\<lparr>path := polyline [f, t],
                                             surface := surface c @ [segment_paint st (ds c) f t]\<rparr>)\<rparr>)\<rparr>))"

section \<open>Reachable states\<close>

text \<open>
  What holds of every state the component reaches from mounting: the ref mirrors the
  state and no effect is outstanding between events, every address held by a stroke or by
  \<open>currentPointsRef\<close> has been allocated, and while a gesture is active its point array
  is not the array of a committed stroke and is not empty.
\<close>

definition stroke_addrs :: "Stroke list \<Rightarrow> addr list" where
  "stroke_addrs ss = List.map_filter s_points ss"

definition store_ok :: "wb \<Rightarrow> bool" where
  "store_ok st =
     (list_all (\<lambda>a. a < next_addr st) (stroke_addrs (strokes st)) \<and>
      (case currentPointsRef st of
         None \<Rightarrow> True
       | Some a \<Rightarrow>
           a < next_addr st \<and>
           (isDrawingRef st \<longrightarrow> a \<notin> set (stroke_addrs (strokes st)) \<and> heap st a \<noteq> [])))"

definition inv_wb :: "wb \<Rightarrow> bool" where
  "inv_wb st =
     (strokesRef st = strokes st \<and> \<not> strokes_dirty st \<and> \<not> cursors_dirty st \<and> store_ok st)"

section \<open>Gestures\<close>

text \<open>
  The events that can occur during a gesture without ending it, the tool, colour and size
  that are live after a list of events, the points its moves record, and the segments its
  moves paint, each with the values live at that move. \<open>same_rect\<close> relates the canvas
  before and after drawing: its position, its size and the attributes of its context stay.
\<close>

fun mid_gesture :: "event \<Rightarrow> bool" where
  "mid_gesture (PointerMove cx cy now) = True"
| "mid_gesture (PropTool t) = True"
| "mid_gesture (PropColor c) = True"
| "mid_gesture (PropSize n) = True"
| "mid_gesture e = False"

fun live_color :: "event list \<Rightarrow> string \<Rightarrow> string" where
  "live_color [] c = c"
| "live_color (PropColor c' # es) c = live_color es c'"
| "live_color (e # es) c = live_color es c"

fun live_tool :: "event list \<Rightarrow> string \<Rightarrow> string" where
  "live_tool [] t = t"
| "live_tool (PropTool t' # es) t = live_tool es t'"
| "live_tool (e # es) t = live_tool es t"

fun live_size :: "event list \<Rightarrow> real \<Rightarrow> real" where
  "live_size [] n = n"
| "live_size (PropSize n' # es) n = live_size es n'"
| "live_size (e # es) n = live_size es n"

fun gesture_moves :: "canvas \<Rightarrow> event list \<Rightarrow> Point list" where
  "gesture_moves cv [] = []"
| "gesture_moves cv (PointerMove cx cy now # es) = getPointFromEvent cv cx cy # gesture_moves cv es"
| "gesture_moves cv (e # es) = gesture_moves cv es"

definition same_rect :: "canvas \<Rightarrow> canvas \<Rightarrow> bool" where
  "same_rect cv cv' =
     (rect_left cv' = rect_left cv \<and> rect_top cv' = rect_top cv \<and>
      rect_width cv' = rect_width cv \<and> rect_height cv' = rect_height cv \<and>
      map_option ds (ctx cv') = map_option ds (ctx cv))"


section \<open>Predicates used in the statements\<close>

text \<open>
  A row whose point list is missing or shorter than two points; the events that replace
  the committed list; how a committed stroke and an incremental segment must appear on the
  surface; the first presence record of a connection key, the user ids of the first
  records other than the local user, the cursor a presence record describes and the
  entries these records give; the surface a run of events leaves.
\<close>

definition degenerate_row :: "db_row \<Rightarrow> bool" where
  "degenerate_row r = (case r_points r of None \<Rightarrow> True | Some ps \<Rightarrow> length ps < 2)"

fun replaces_list :: "event \<Rightarrow> bool" where
  "replaces_list RemoteDelete = True"
| "replaces_list (LoadSettled err data) = True"
| "replaces_list e = False"

definition composited_as :: "(addr \<Rightarrow> Point list) \<Rightarrow> Stroke \<Rightarrow> paint \<Rightarrow> bool" where
  "composited_as h s p =
     (case p of
        StrokePath d pth \<Rightarrow>
          pth = polyline (stroke_points h s) \<and> lineWidth d = s_size s \<and>
          (if s_tool s = ''eraser''
           then globalCompositeOperation d = ''destination-out''
           else globalCompositeOperation d = ''source-over'' \<and> strokeStyle d = s_color s)
      | _ \<Rightarrow> False)"

definition segment_composited :: "wb \<Rightarrow> Point \<Rightarrow> Point \<Rightarrow> paint \<Rightarrow> bool" where
  "segment_composited st f t p =
     (case p of
        StrokePath d pth \<Rightarrow>
          pth = [MoveTo (px f) (py f), LineTo (px t) (py t)] \<and> lineWidth d = brushSizeRef st \<and>
          (if currentToolRef st = ''eraser''
           then globalCompositeOperation d = ''destination-out''
           else globalCompositeOperation d = ''source-over''
                \<and> strokeStyle d = currentColorRef st)
      | _ \<Rightarrow> False)"

definition first_presence :: "string \<times> presence list option \<Rightarrow> presence option" where
  "first_presence entry =
     (case snd entry of None \<Rightarrow> None | Some [] \<Rightarrow> None | Some (p # rest) \<Rightarrow> Some p)"

definition remote_ids :: "string \<Rightarrow> (string \<times> presence list option) list \<Rightarrow> string list" where
  "remote_ids uid state =
     filter (\<lambda>u. u \<noteq> uid) (map user_id (List.map_filter first_presence state))"

definition cursor_of_presence :: "presence \<Rightarrow> RemoteCursor" where
  "cursor_of_presence p =
     \<lparr>c_userId = user_id p, c_userName = user_name p, c_userColor = user_color p,
      c_x = p_x p, c_y = p_y p, c_timestamp = p_timestamp p\<rparr>"

definition remote_entries ::
  "string \<Rightarrow> (string \<times> presence list option) list \<Rightarrow> (string \<times> RemoteCursor) list" where
  "remote_entries uid state =
     map (\<lambda>p. (user_id p, cursor_of_presence p))
       (filter (\<lambda>p. user_id p \<noteq> uid) (List.map_filter first_presence state))"


section \<open>Concrete states\<close>

text \<open>Concrete states and inputs on which the theorems below are exercised.\<close>

definition demo_ctx :: ctx2d where
  "demo_ctx = \<lparr>ds = default_ds, stack = [], path = [], surface = []\<rparr>"

definition demo_canvas :: canvas where
  "demo_canvas =
     \<lparr>cv_width = 800, cv_height = 600, rect_left = 10, rect_top = 20, rect_width = 800,
      rect_height = 600, ctx = Some demo_ctx\<rparr>"

definition demo :: wb where
  "demo = mounted ''R1'' ''U1'' ''A'' ''#00ff00'' ''pen'' ''#ff0000'' 4 (Some demo_canvas)"

definition demo_cursor :: RemoteCursor where
  "demo_cursor =
     \<lparr>c_userId = ''U2'', c_userName = ''B'', c_userColor = ''#0000ff'', c_x = 50, c_y = 60,
      c_timestamp = 7\<rparr>"

definition demo_stroke :: Stroke where
  "demo_stroke =
     \<lparr>s_id = ''s1'', s_points = Some 0, s_color = ''#ff0000'', s_size = 4, s_tool = ''pen'',
      s_userId = ''U2''\<rparr>"

definition demo_drawn :: wb where
  "demo_drawn =
     demo\<lparr>heap := (\<lambda>a. [])(0 := [\<lparr>px = 0, py = 0\<rparr>, \<lparr>px = 10, py = 10\<rparr>, \<lparr>px = 20, py = 5\<rparr>],
                            1 := [\<lparr>px = 1, py = 1\<rparr>, \<lparr>px = 2, py = 2\<rparr>]),
          next_addr := 2, strokes := [demo_stroke], strokesRef := [demo_stroke],
          isDrawingRef := True, currentPointsRef := Some 1,
          remoteCursors := [(''U2'', demo_cursor)]\<rparr>"

definition tap :: wb where
  "tap = handlePointerDown None 15 25 demo_canvas demo"

definition stalled :: wb where
  "stalled = demo\<lparr>isDrawingRef := True\<rparr>"

definition demo_eraser :: Stroke where
  "demo_eraser =
     \<lparr>s_id = ''s2'', s_points = Some 1, s_color = ''#00ff00'', s_size = 9, s_tool = ''eraser'',
      s_userId = ''U3''\<rparr>"

definition demo_erased :: wb where
  "demo_erased =
     demo_drawn\<lparr>strokes := [demo_stroke, demo_eraser], strokesRef := [demo_stroke, demo_eraser],
                isDrawingRef := False, currentPointsRef := None, currentToolRef := ''eraser''\<rparr>"

definition demo_presence :: "(string \<times> presence list option) list" where
  "demo_presence =
     [(''k1'', Some [\<lparr>user_id = ''U1'', user_name = ''A'', user_color = ''#00ff00'',
                     p_x = 0, p_y = 0, p_timestamp = 1\<rparr>]),
      (''k2'', Some [\<lparr>user_id = ''U2'', user_name = ''B'', user_color = ''#0000ff'',
                     p_x = 1, p_y = 1, p_timestamp = 2\<rparr>]),
      (''k3'', Some [\<lparr>user_id = ''U3'', user_name = ''C'', user_color = ''#ff00ff'',
                     p_x = 2, p_y = 2, p_timestamp = 3\<rparr>]),
      (''k4'', Some [\<lparr>user_id = ''U2'', user_name = ''B'', user_color = ''#0000ff'',
                     p_x = 9, p_y = 9, p_timestamp = 4\<rparr>]),
      (''k5'', Some [])]"



definition demo_row :: db_row where
  "demo_row =
     \<lparr>r_id = ''s7'', r_points = Some [\<lparr>px = 3, py = 4\<rparr>, \<lparr>px = 5, py = 6\<rparr>],
      r_color = ''#0000ff'', r_size = 2, r_tool = ''pen'', r_user_id = ''U2''\<rparr>"

section \<open>The renderer computes the picture\<close>

lemma lineTo_all_eq:
  "lineTo_all ps c = c\<lparr>path := path c @ map (\<lambda>q. LineTo (px q) (py q)) ps\<rparr>"
  by (induction ps arbitrary: c) (simp_all add: lineTo_def)

lemma trace_points_Cons:
  "trace_points (p # rest) c = Inr (c\<lparr>path := path c @ polyline (p # rest)\<rparr>)"
  by (simp add: trace_points_def lineTo_all_eq moveTo_def polyline_def)

lemma trace_points_ok:
  "pts \<noteq> [] \<Longrightarrow> trace_points pts c = Inr (c\<lparr>path := path c @ polyline pts\<rparr>)"
  by (cases pts) (simp_all add: trace_points_Cons)

lemma draw_stroke_eq:
  "draw_stroke h s c =
     Inr (if renderable h s
          then c\<lparr>ds := stroke_style s (ds c), path := polyline (stroke_points h s),
                 surface := surface c @ [StrokePath (stroke_style s (ds c)) (polyline (stroke_points h s))]\<rparr>
          else c)"
proof (cases "s_points s")
  case None
  then show ?thesis by (simp add: draw_stroke_def renderable_def stroke_points_def)
next
  case (Some a)
  show ?thesis
  proof (cases "length (h a) < 2")
    case True
    with Some show ?thesis by (simp add: draw_stroke_def renderable_def stroke_points_def)
  next
    case False
    then have ne: "h a \<noteq> []" by auto
    from False Some ne show ?thesis
      by (simp add: draw_stroke_def renderable_def stroke_points_def Let_def trace_points_ok
          beginPath_def set_lineWidth_def set_globalCompositeOperation_def set_strokeStyle_def
          ctx_stroke_def stroke_style_def tool_style_def)
  qed
qed

lemma draw_strokes_eq:
  "draw_strokes h ss c =
     Inr (c\<lparr>ds := committed_ds h ss (ds c), path := committed_path h ss (path c),
            surface := surface c @ committed_paints h ss (ds c)\<rparr>)"
  by (induction ss arbitrary: c) (simp_all add: draw_stroke_eq)

lemma draw_pending_eq:
  "draw_pending pending tool col sz c =
     Inr (c\<lparr>ds := pending_ds pending tool col sz (ds c), path := pending_path pending (path c),
            surface := surface c @ pending_paints pending tool col sz (ds c)\<rparr>)"
proof (cases pending)
  case None
  then show ?thesis
    by (simp add: draw_pending_def pending_ds_def pending_path_def pending_paints_def pending_ok_def)
next
  case (Some pts)
  show ?thesis
  proof (cases "2 \<le> length pts")
    case False
    with Some show ?thesis
      by (simp add: draw_pending_def pending_ds_def pending_path_def pending_paints_def pending_ok_def)
  next
    case True
    then have ne: "pts \<noteq> []" by auto
    from True Some ne show ?thesis
      by (simp add: draw_pending_def pending_ds_def pending_path_def pending_paints_def
          pending_ok_def Let_def trace_points_ok beginPath_def set_lineWidth_def
          set_globalCompositeOperation_def set_strokeStyle_def ctx_stroke_def tool_style_def)
  qed
qed

lemma draw_cursor_eq:
  "draw_cursor cur c =
     c\<lparr>ds := cursor_ds (ds c), path := cursor_disc cur,
       surface := surface c @ cursor_mark cur (ds c)\<rparr>"
  by (simp add: draw_cursor_def Let_def set_fillStyle_def beginPath_def arc_def ctx_fill_def
      set_font_def fillText_def cursor_ds_def cursor_disc_def cursor_mark_def)

lemma cursor_ds_idem: "cursor_ds (cursor_ds d) = cursor_ds d"
  by (simp add: cursor_ds_def)

lemma fold_draw_cursor_eq:
  "fold draw_cursor curs c =
     c\<lparr>ds := cursors_ds curs (ds c), path := cursors_path curs (path c),
       surface := surface c @ cursors_paints curs (ds c)\<rparr>"
proof (induction curs arbitrary: c)
  case Nil
  show ?case by (simp add: cursors_ds_def cursors_path_def)
next
  case (Cons cur curs)
  have "fold draw_cursor (cur # curs) c = fold draw_cursor curs (draw_cursor cur c)"
    by simp
  also have "\<dots> = (draw_cursor cur c)
      \<lparr>ds := cursors_ds curs (ds (draw_cursor cur c)),
       path := cursors_path curs (path (draw_cursor cur c)),
       surface := surface (draw_cursor cur c) @ cursors_paints curs (ds (draw_cursor cur c))\<rparr>"
    by (rule Cons.IH)
  also have "\<dots> = c\<lparr>ds := cursors_ds (cur # curs) (ds c),
      path := cursors_path (cur # curs) (path c),
      surface := surface c @ cursors_paints (cur # curs) (ds c)\<rparr>"
    by (simp add: draw_cursor_eq cursors_ds_def cursors_path_def cursor_ds_idem)
  finally show ?case .
qed

lemma redraw_ctx_eq:
  "redraw_ctx cv cursors st c =
     Inr (c\<lparr>path := scene_path cursors st (path c), surface := scene cv cursors st (ds c)\<rparr>)"
  by (simp add: redraw_ctx_def Let_def ctx_save_def clearRect_def set_fillStyle_def fillRect_def
      set_lineJoin_def set_lineCap_def draw_strokes_eq draw_pending_eq fold_draw_cursor_eq
      ctx_restore_def scene_def scene_path_def background_def base_ds_def pending_points_def)

lemma committed_path_shape:
  "(\<forall>p. committed_path h ss p = p) \<or> (\<exists>k. \<forall>p. committed_path h ss p = k)"
proof (induction ss)
  case Nil
  show ?case by simp
next
  case (Cons s ss)
  show ?case
  proof (cases "renderable h s")
    case True
    then have "\<forall>p. committed_path h (s # ss) p = committed_path h ss (polyline (stroke_points h s))"
      by simp
    then show ?thesis by blast
  next
    case False
    with Cons.IH show ?thesis by simp
  qed
qed

lemma scene_path_shape:
  "(\<forall>p. scene_path cursors st p = p) \<or> (\<exists>k. \<forall>p. scene_path cursors st p = k)"
proof (cases "cursors = []")
  case False
  then show ?thesis by (simp add: scene_path_def cursors_path_def)
next
  case noc: True
  show ?thesis
  proof (cases "pending_ok (pending_points st)")
    case True
    with noc show ?thesis by (simp add: scene_path_def cursors_path_def pending_path_def)
  next
    case False
    with noc committed_path_shape [of "heap st" "strokesRef st"] show ?thesis
      by (simp add: scene_path_def cursors_path_def pending_path_def)
  qed
qed

lemma scene_path_idem: "scene_path cursors st (scene_path cursors st p) = scene_path cursors st p"
  using scene_path_shape [of cursors st] by metis

lemma redrawAll_eq:
  "redrawAll cursors st =
     Inr (case canvasRef st of
            None \<Rightarrow> st
          | Some cv \<Rightarrow>
              (case ctx cv of
                 None \<Rightarrow> st
               | Some c \<Rightarrow>
                   st\<lparr>canvasRef := Some (cv\<lparr>ctx := Some (c\<lparr>path := scene_path cursors st (path c),
                          surface := scene cv cursors st (ds c)\<rparr>)\<rparr>)\<rparr>))"
  by (simp add: redrawAll_def redraw_ctx_eq split: option.splits)

lemma scene_canvas_irrelevant:
  "scene cv cursors (st\<lparr>canvasRef := x\<rparr>) d = scene cv cursors st d"
  "scene_path cursors (st\<lparr>canvasRef := x\<rparr>) p = scene_path cursors st p"
  by (simp_all add: scene_def scene_path_def pending_points_def)

lemma scene_ctx_irrelevant:
  "scene (cv\<lparr>ctx := y\<rparr>) cursors st d = scene cv cursors st d"
  by (simp add: scene_def background_def)

lemma redrawAll_repaint: "redrawAll cursors st = Inr (repaint cursors st)"
  by (simp add: redrawAll_eq repaint_def)

lemma repaint_fields [simp]:
  "roomId (repaint cs st) = roomId st"
  "userId (repaint cs st) = userId st"
  "userName (repaint cs st) = userName st"
  "userColor (repaint cs st) = userColor st"
  "strokes (repaint cs st) = strokes st"
  "strokesRef (repaint cs st) = strokesRef st"
  "remoteCursors (repaint cs st) = remoteCursors st"
  "cursorChannel (repaint cs st) = cursorChannel st"
  "isDrawingRef (repaint cs st) = isDrawingRef st"
  "currentPointsRef (repaint cs st) = currentPointsRef st"
  "currentColorRef (repaint cs st) = currentColorRef st"
  "currentToolRef (repaint cs st) = currentToolRef st"
  "brushSizeRef (repaint cs st) = brushSizeRef st"
  "heap (repaint cs st) = heap st"
  "next_addr (repaint cs st) = next_addr st"
  "inserted (repaint cs st) = inserted st"
  "pending_writes (repaint cs st) = pending_writes st"
  "tracked (repaint cs st) = tracked st"
  "console (repaint cs st) = console st"
  "strokes_dirty (repaint cs st) = strokes_dirty st"
  "cursors_dirty (repaint cs st) = cursors_dirty st"
  by (simp_all add: repaint_def split: option.splits)

lemma repaint_idem: "repaint cs (repaint cs st) = repaint cs st"
  by (simp add: repaint_def scene_canvas_irrelevant scene_ctx_irrelevant scene_path_idem
      split: option.splits)

section \<open>Events never fail in reachable states\<close>

text \<open>
  The effects only repaint; the handlers keep the invariant; so every event, and every
  list of events, is processed without a TypeError from any reachable state.
\<close>

lemma flush_eq:
  "flush st =
     Inr (if strokes_dirty st \<or> cursors_dirty st
          then (repaint (remoteCursors st) (st\<lparr>strokesRef := strokes st\<rparr>))
                 \<lparr>strokes_dirty := False, cursors_dirty := False\<rparr>
          else st)"
  by (simp add: flush_def redrawAll_repaint repaint_idem)

lemma flush_fields:
  assumes "flush st = Inr st'"
  shows "roomId st' = roomId st" "userId st' = userId st" "userName st' = userName st"
    "userColor st' = userColor st" "strokes st' = strokes st"
    "remoteCursors st' = remoteCursors st" "cursorChannel st' = cursorChannel st"
    "isDrawingRef st' = isDrawingRef st" "currentPointsRef st' = currentPointsRef st"
    "currentColorRef st' = currentColorRef st" "currentToolRef st' = currentToolRef st"
    "brushSizeRef st' = brushSizeRef st" "heap st' = heap st" "next_addr st' = next_addr st"
    "inserted st' = inserted st" "pending_writes st' = pending_writes st"
    "tracked st' = tracked st" "console st' = console st"
    "strokes_dirty st' = False \<or> \<not> (strokes_dirty st \<or> cursors_dirty st)"
  using assms by (auto simp add: flush_eq split: if_splits)

lemma drawSegment_Some: "drawSegment (Some f) t st = Inr (paint_segment f t st)"
  by (simp add: drawSegment_def paint_segment_def segment_paint_def Let_def ctx_save_def
      set_globalCompositeOperation_def set_strokeStyle_def set_lineWidth_def set_lineJoin_def
      set_lineCap_def beginPath_def moveTo_def lineTo_def ctx_stroke_def ctx_restore_def
      tool_style_def polyline_def split: option.splits)

lemma paint_segment_fields [simp]:
  "roomId (paint_segment f t st) = roomId st"
  "userId (paint_segment f t st) = userId st"
  "userName (paint_segment f t st) = userName st"
  "userColor (paint_segment f t st) = userColor st"
  "strokes (paint_segment f t st) = strokes st"
  "strokesRef (paint_segment f t st) = strokesRef st"
  "remoteCursors (paint_segment f t st) = remoteCursors st"
  "cursorChannel (paint_segment f t st) = cursorChannel st"
  "isDrawingRef (paint_segment f t st) = isDrawingRef st"
  "currentPointsRef (paint_segment f t st) = currentPointsRef st"
  "currentColorRef (paint_segment f t st) = currentColorRef st"
  "currentToolRef (paint_segment f t st) = currentToolRef st"
  "brushSizeRef (paint_segment f t st) = brushSizeRef st"
  "heap (paint_segment f t st) = heap st"
  "next_addr (paint_segment f t st) = next_addr st"
  "inserted (paint_segment f t st) = inserted st"
  "pending_writes (paint_segment f t st) = pending_writes st"
  "tracked (paint_segment f t st) = tracked st"
  "console (paint_segment f t st) = console st"
  "strokes_dirty (paint_segment f t st) = strokes_dirty st"
  "cursors_dirty (paint_segment f t st) = cursors_dirty st"
  by (simp_all add: paint_segment_def split: option.splits)

lemma stroke_of_row_eq:
  "stroke_of_row r st =
     (\<lparr>s_id = r_id r, s_points = map_option (\<lambda>ps. next_addr st) (r_points r),
       s_color = r_color r, s_size = r_size r, s_tool = r_tool r, s_userId = r_user_id r\<rparr>,
      case r_points r of
        None \<Rightarrow> st
      | Some ps \<Rightarrow> st\<lparr>heap := (heap st)(next_addr st := ps), next_addr := Suc (next_addr st)\<rparr>)"
  by (simp add: stroke_of_row_def alloc_def split: option.splits)

lemma parse_rows_frame:
  "\<exists>ss H N. parse_rows rs st = (ss, st\<lparr>heap := H, next_addr := N\<rparr>)
         \<and> next_addr st \<le> N
         \<and> (\<forall>a < next_addr st. H a = heap st a)
         \<and> list_all (\<lambda>a. next_addr st \<le> a \<and> a < N) (stroke_addrs ss)"
proof (induction rs arbitrary: st)
  case Nil
  have "parse_rows [] st = ([], st\<lparr>heap := heap st, next_addr := next_addr st\<rparr>)
      \<and> next_addr st \<le> next_addr st
      \<and> (\<forall>a < next_addr st. heap st a = heap st a)
      \<and> list_all (\<lambda>a. next_addr st \<le> a \<and> a < next_addr st) (stroke_addrs [])"
    by (simp add: stroke_addrs_def)
  then show ?case by (intro exI)
next
  case (Cons r rs)
  obtain s st1 where r: "stroke_of_row r st = (s, st1)" by (cases "stroke_of_row r st")
  from r have s: "s_points s = map_option (\<lambda>ps. next_addr st) (r_points r)"
    and st1: "st1 = (case r_points r of None \<Rightarrow> st
       | Some ps \<Rightarrow> st\<lparr>heap := (heap st)(next_addr st := ps), next_addr := Suc (next_addr st)\<rparr>)"
    by (auto simp add: stroke_of_row_eq)
  from Cons.IH [of st1] obtain ss2 H N where
    rs: "parse_rows rs st1 = (ss2, st1\<lparr>heap := H, next_addr := N\<rparr>)"
    and b: "next_addr st1 \<le> N"
    and c: "\<forall>a < next_addr st1. H a = heap st1 a"
    and d: "list_all (\<lambda>a. next_addr st1 \<le> a \<and> a < N) (stroke_addrs ss2)"
    by blast
  have 0: "parse_rows (r # rs) st = (s # ss2, st\<lparr>heap := H, next_addr := N\<rparr>)"
    using r rs st1 by (simp split: option.splits)
  have 2: "next_addr st \<le> N" using b st1 by (simp split: option.splits)
  have 3: "\<forall>a < next_addr st. H a = heap st a" using c st1 by (simp split: option.splits)
  have 4: "list_all (\<lambda>a. next_addr st \<le> a \<and> a < N) (stroke_addrs (s # ss2))"
    using d b s st1
    by (auto simp add: stroke_addrs_def list_all_iff split: option.splits)
  from 0 2 3 4 have "parse_rows (r # rs) st = (s # ss2, st\<lparr>heap := H, next_addr := N\<rparr>)
         \<and> next_addr st \<le> N
         \<and> (\<forall>a < next_addr st. H a = heap st a)
         \<and> list_all (\<lambda>a. next_addr st \<le> a \<and> a < N) (stroke_addrs (s # ss2))"
    by simp
  then show ?case by (intro exI)
qed

lemma flush_inv:
  assumes "store_ok st1" and "strokes_dirty st1 \<or> cursors_dirty st1 \<or> strokesRef st1 = strokes st1"
    and "flush st1 = Inr st'"
  shows "inv_wb st'"
  using assms by (auto simp add: flush_eq inv_wb_def store_ok_def split: if_splits option.splits)

lemma stroke_addrs_append [simp]:
  "stroke_addrs (xs @ ys) = stroke_addrs xs @ stroke_addrs ys"
  by (simp add: stroke_addrs_def map_filter_def)

lemma stroke_addrs_single [simp]:
  "stroke_addrs [s] = (case s_points s of None \<Rightarrow> [] | Some a \<Rightarrow> [a])"
  by (simp add: stroke_addrs_def split: option.splits)

lemma stroke_addrs_Nil [simp]: "stroke_addrs [] = []"
  by (simp add: stroke_addrs_def)

lemma handle_PointerDown_ok:
  assumes "inv_wb st"
  shows "\<exists>st1. handle (PointerDown b cx cy) st = Inr st1 \<and> store_ok st1
           \<and> \<not> strokes_dirty st1 \<and> \<not> cursors_dirty st1 \<and> strokesRef st1 = strokes st1"
  using assms
  by (auto simp add: inv_wb_def store_ok_def handlePointerDown_def alloc_def Let_def list_all_iff
      split: option.splits)

lemma handle_PointerMove_ok:
  assumes "inv_wb st"
  shows "\<exists>st1. handle (PointerMove cx cy now) st = Inr st1 \<and> store_ok st1
           \<and> \<not> strokes_dirty st1 \<and> \<not> cursors_dirty st1 \<and> strokesRef st1 = strokes st1"
  using assms
  by (auto simp add: inv_wb_def store_ok_def handlePointerMove_def Let_def drawSegment_Some
      list_all_iff split: option.splits)

lemma handle_PointerUp_ok:
  assumes "inv_wb st"
  shows "\<exists>st1. handle (PointerUp now) st = Inr st1 \<and> store_ok st1
           \<and> (strokes_dirty st1 \<or> cursors_dirty st1 \<or> strokesRef st1 = strokes st1)"
  using assms
  by (auto simp add: inv_wb_def store_ok_def handlePointerUp_def commitStroke_def append_stroke_def
      Let_def list_all_iff split: option.splits)

lemma handle_InsertSettled_ok:
  assumes "inv_wb st"
  shows "\<exists>st1. handle (InsertSettled err) st = Inr st1 \<and> store_ok st1
           \<and> (strokes_dirty st1 \<or> cursors_dirty st1 \<or> strokesRef st1 = strokes st1)"
  using assms
  by (auto simp add: inv_wb_def store_ok_def commitStroke_settled_def Let_def split: option.splits)

lemma handle_RemoteInsert_ok:
  assumes "inv_wb st"
  shows "\<exists>st1. handle (RemoteInsert r) st = Inr st1 \<and> store_ok st1
           \<and> (strokes_dirty st1 \<or> cursors_dirty st1 \<or> strokesRef st1 = strokes st1)"
  using assms
  by (auto simp add: inv_wb_def store_ok_def onInsert_def stroke_of_row_eq append_stroke_def
      Let_def list_all_iff split: option.splits)

lemma handle_RemoteDelete_ok:
  assumes "inv_wb st"
  shows "\<exists>st1. handle RemoteDelete st = Inr st1 \<and> store_ok st1
           \<and> (strokes_dirty st1 \<or> cursors_dirty st1 \<or> strokesRef st1 = strokes st1)"
  using assms
  by (auto simp add: inv_wb_def store_ok_def onDelete_def split: option.splits)

lemma handle_PresenceSync_ok:
  assumes "inv_wb st"
  shows "\<exists>st1. handle (PresenceSync ps) st = Inr st1 \<and> store_ok st1
           \<and> (strokes_dirty st1 \<or> cursors_dirty st1 \<or> strokesRef st1 = strokes st1)"
  using assms
  by (auto simp add: inv_wb_def store_ok_def onPresenceSync_def split: option.splits)

lemma handle_Prop_ok:
  assumes "inv_wb st" and "e = PropTool t \<or> e = PropColor c \<or> e = PropSize n"
  shows "\<exists>st1. handle e st = Inr st1 \<and> store_ok st1
           \<and> (strokes_dirty st1 \<or> cursors_dirty st1 \<or> strokesRef st1 = strokes st1)"
  using assms
  by (auto simp add: inv_wb_def store_ok_def split: option.splits)

lemma handle_LoadSettled_ok:
  assumes "inv_wb st"
  shows "\<exists>st1. handle (LoadSettled err data) st = Inr st1 \<and> store_ok st1
           \<and> (strokes_dirty st1 \<or> cursors_dirty st1 \<or> strokesRef st1 = strokes st1)"
proof (cases err)
  case (Some e)
  with assms show ?thesis
    by (auto simp add: inv_wb_def store_ok_def loadStrokes_settled_def split: option.splits)
next
  case noerr: None
  show ?thesis
  proof (cases data)
    case None
    with noerr assms show ?thesis
      by (auto simp add: inv_wb_def store_ok_def loadStrokes_settled_def split: option.splits)
  next
    case (Some rows)
    from parse_rows_frame [of rows st] obtain ss H N where
      p: "parse_rows rows st = (ss, st\<lparr>heap := H, next_addr := N\<rparr>)"
      and le: "next_addr st \<le> N"
      and same: "\<forall>a < next_addr st. H a = heap st a"
      and fresh: "list_all (\<lambda>a. next_addr st \<le> a \<and> a < N) (stroke_addrs ss)"
      by blast
    have h: "handle (LoadSettled err data) st
               = Inr (st\<lparr>heap := H, next_addr := N, strokes := ss, strokes_dirty := True\<rparr>)"
      using noerr Some p by (simp add: loadStrokes_settled_def)
    have ok: "store_ok (st\<lparr>heap := H, next_addr := N, strokes := ss, strokes_dirty := True\<rparr>)"
      using assms le same fresh
      by (auto simp add: inv_wb_def store_ok_def list_all_iff split: option.splits)
    from h ok show ?thesis by simp
  qed
qed

lemma handle_ok:
  assumes "inv_wb st"
  shows "\<exists>st1. handle e st = Inr st1 \<and> store_ok st1
           \<and> (strokes_dirty st1 \<or> cursors_dirty st1 \<or> strokesRef st1 = strokes st1)"
proof (cases e)
  case (PointerDown b cx cy)
  with handle_PointerDown_ok [OF assms, of b cx cy] show ?thesis by blast
next
  case (PointerMove cx cy now)
  with handle_PointerMove_ok [OF assms, of cx cy now] show ?thesis by blast
next
  case (PointerUp now)
  with handle_PointerUp_ok [OF assms, of now] show ?thesis by blast
next
  case (InsertSettled err)
  with handle_InsertSettled_ok [OF assms, of err] show ?thesis by blast
next
  case (RemoteInsert r)
  with handle_RemoteInsert_ok [OF assms, of r] show ?thesis by blast
next
  case RemoteDelete
  with handle_RemoteDelete_ok [OF assms] show ?thesis by blast
next
  case (LoadSettled err data)
  with handle_LoadSettled_ok [OF assms, of err data] show ?thesis by blast
next
  case (PresenceSync ps)
  with handle_PresenceSync_ok [OF assms, of ps] show ?thesis by blast
next
  case (PropTool t)
  with handle_Prop_ok [OF assms, of e t] show ?thesis by blast
next
  case (PropColor c)
  with handle_Prop_ok [OF assms, of e _ c] show ?thesis by blast
next
  case (PropSize n)
  with handle_Prop_ok [OF assms, of e _ _ n] show ?thesis by blast
qed

lemma step_ok:
  assumes "inv_wb st"
  shows "\<exists>st'. step e st = Inr st' \<and> inv_wb st'"
proof -
  from handle_ok [OF assms, of e] obtain st1 where
    h: "handle e st = Inr st1" and ok: "store_ok st1"
    and d: "strokes_dirty st1 \<or> cursors_dirty st1 \<or> strokesRef st1 = strokes st1"
    by blast
  obtain st' where f: "flush st1 = Inr st'" by (simp add: flush_eq)
  from flush_inv [OF ok d f] h f show ?thesis by (simp add: step_def)
qed

lemma run_ok:
  assumes "inv_wb st"
  shows "\<exists>st'. run es st = Inr st' \<and> inv_wb st'"
  using assms
proof (induction es arbitrary: st)
  case Nil
  then show ?case by simp
next
  case (Cons e es)
  from step_ok [OF Cons.prems, of e] obtain st1 where
    s: "step e st = Inr st1" and i: "inv_wb st1" by blast
  from Cons.IH [OF i] s show ?case by simp
qed

lemma inv_mounted: "inv_wb (mounted room uid uname ucolor tool col sz cvo)"
  by (simp add: inv_wb_def store_ok_def mounted_def)

section \<open>Full redraw\<close>

lemma committed_heap_cong:
  assumes "\<forall>a \<in> set (stroke_addrs ss). h' a = h a"
  shows "committed_paints h' ss d = committed_paints h ss d"
    and "committed_ds h' ss d = committed_ds h ss d"
    and "committed_path h' ss p = committed_path h ss p"
proof -
  have r: "\<And>s. s \<in> set ss \<Longrightarrow> stroke_points h' s = stroke_points h s"
    using assms
    by (auto simp add: stroke_points_def stroke_addrs_def map_filter_def split: option.splits)
  have "committed_paints h' ss d = committed_paints h ss d
        \<and> committed_ds h' ss d = committed_ds h ss d
        \<and> committed_path h' ss p = committed_path h ss p"
    using r
  proof (induction ss arbitrary: d p)
    case Nil
    show ?case by simp
  next
    case (Cons s ss)
    have e: "stroke_points h' s = stroke_points h s" using Cons.prems by simp
    have ih: "\<And>d p. committed_paints h' ss d = committed_paints h ss d
        \<and> committed_ds h' ss d = committed_ds h ss d
        \<and> committed_path h' ss p = committed_path h ss p"
      using Cons.IH Cons.prems by simp
    show ?case by (simp add: renderable_def e ih)
  qed
  then show "committed_paints h' ss d = committed_paints h ss d"
    and "committed_ds h' ss d = committed_ds h ss d"
    and "committed_path h' ss p = committed_path h ss p"
    by simp_all
qed

lemma committed_snoc_skip:
  assumes "\<not> renderable h s"
  shows "committed_paints h (ss @ [s]) d = committed_paints h ss d"
    and "committed_ds h (ss @ [s]) d = committed_ds h ss d"
    and "committed_path h (ss @ [s]) p = committed_path h ss p"
  using assms by (induction ss arbitrary: d p) simp_all

text \<open>
  C9. Full redraw is idempotent: with the same committed strokes, the same points in
  progress and the same cursor map, a second full redraw leaves the drawing context, and
  so the picture, exactly as the first one left it.
\<close>

theorem redrawAll_idempotent:
  "\<exists>st1. redrawAll cursors st = Inr st1 \<and> redrawAll cursors st1 = Inr st1
         \<and> strokesRef st1 = strokesRef st \<and> currentPointsRef st1 = currentPointsRef st
         \<and> heap st1 = heap st"
  by (simp add: redrawAll_repaint repaint_idem)

lemma repaint_canvas_cong:
  assumes "canvasRef st' = canvasRef st"
    and "\<And>cv d. scene cv cs st' d = scene cv cs st d"
    and "\<And>p. scene_path cs st' p = scene_path cs st p"
  shows "canvasRef (repaint cs st') = canvasRef (repaint cs st)"
  using assms by (simp add: repaint_def split: option.splits)

lemma scene_cong:
  assumes "committed_paints (heap st') (strokesRef st') = committed_paints (heap st) (strokesRef st)"
    and "committed_ds (heap st') (strokesRef st') = committed_ds (heap st) (strokesRef st)"
    and "committed_path (heap st') (strokesRef st') = committed_path (heap st) (strokesRef st)"
    and "pending_points st' = pending_points st"
    and "currentToolRef st' = currentToolRef st"
    and "currentColorRef st' = currentColorRef st"
    and "brushSizeRef st' = brushSizeRef st"
  shows "scene cv cs st' d = scene cv cs st d" and "scene_path cs st' p = scene_path cs st p"
  using assms by (simp_all add: scene_def scene_path_def)

lemma onInsert_eq:
  "onInsert r st =
     (case r_points r of
        None \<Rightarrow>
          st\<lparr>strokesRef := strokes st @
                 [\<lparr>s_id = r_id r, s_points = None, s_color = r_color r, s_size = r_size r,
                   s_tool = r_tool r, s_userId = r_user_id r\<rparr>],
              strokes := strokes st @
                 [\<lparr>s_id = r_id r, s_points = None, s_color = r_color r, s_size = r_size r,
                   s_tool = r_tool r, s_userId = r_user_id r\<rparr>],
              strokes_dirty := True\<rparr>
      | Some ps \<Rightarrow>
          st\<lparr>heap := (heap st)(next_addr st := ps), next_addr := Suc (next_addr st),
              strokesRef := strokes st @
                 [\<lparr>s_id = r_id r, s_points = Some (next_addr st), s_color = r_color r,
                   s_size = r_size r, s_tool = r_tool r, s_userId = r_user_id r\<rparr>],
              strokes := strokes st @
                 [\<lparr>s_id = r_id r, s_points = Some (next_addr st), s_color = r_color r,
                   s_size = r_size r, s_tool = r_tool r, s_userId = r_user_id r\<rparr>],
              strokes_dirty := True\<rparr>)"
  by (simp add: onInsert_def stroke_of_row_eq append_stroke_def Let_def split: option.splits)

lemma inv_pending_points_fresh:
  assumes "inv_wb st"
  shows "pending_points (st\<lparr>heap := (heap st)(next_addr st := ps)\<rparr>) = pending_points st"
  using assms by (auto simp add: inv_wb_def store_ok_def pending_points_def split: option.splits)

text \<open>
  C2. A remote Insert whose stroke has no point list, or one of fewer than two points, is
  appended to the committed list (its length grows by one), but the renderer checks the
  point list again before drawing: processing the notification never fails, and the
  canvas it leaves is the one a full redraw without that stroke would have left.
\<close>

theorem remote_degenerate_insert_not_drawn:
  assumes "inv_wb st" and "degenerate_row r"
  shows "\<exists>st' st''. step (RemoteInsert r) st = Inr st'
           \<and> length (strokes st') = Suc (length (strokes st))
           \<and> redrawAll (remoteCursors st) st = Inr st''
           \<and> canvasRef st' = canvasRef st''"
proof -
  let ?st1 = "onInsert r st"
  let ?st2 = "?st1\<lparr>strokesRef := strokes ?st1\<rparr>"
  have ref: "strokesRef st = strokes st" using assms(1) by (simp add: inv_wb_def)
  have addrs: "\<forall>a \<in> set (stroke_addrs (strokes st)). a < next_addr st"
    using assms(1) by (simp add: inv_wb_def store_ok_def list_all_iff)
  have dirty: "strokes_dirty ?st1" by (simp add: onInsert_eq split: option.splits)
  have cvs: "canvasRef ?st2 = canvasRef st" "remoteCursors ?st2 = remoteCursors st"
    by (simp_all add: onInsert_eq split: option.splits)
  have len: "length (strokes ?st1) = Suc (length (strokes st))"
    by (simp add: onInsert_eq split: option.splits)
  have refs: "currentToolRef ?st2 = currentToolRef st" "currentColorRef ?st2 = currentColorRef st"
    "brushSizeRef ?st2 = brushSizeRef st"
    by (simp_all add: onInsert_eq split: option.splits)
  have pend: "pending_points ?st2 = pending_points st"
  proof (cases "r_points r")
    case None
    then show ?thesis by (simp add: onInsert_eq pending_points_def)
  next
    case (Some ps)
    with inv_pending_points_fresh [OF assms(1), of ps] show ?thesis
      by (simp add: onInsert_eq pending_points_def)
  qed
  have com: "committed_paints (heap ?st2) (strokesRef ?st2) = committed_paints (heap st) (strokesRef st)
      \<and> committed_ds (heap ?st2) (strokesRef ?st2) = committed_ds (heap st) (strokesRef st)
      \<and> committed_path (heap ?st2) (strokesRef ?st2) = committed_path (heap st) (strokesRef st)"
  proof (cases "r_points r")
    case None
    then show ?thesis
      by (auto simp add: onInsert_eq ref committed_snoc_skip renderable_def stroke_points_def)
  next
    case (Some ps)
    let ?h = "(heap st)(next_addr st := ps)"
    let ?s = "\<lparr>s_id = r_id r, s_points = Some (next_addr st), s_color = r_color r,
                s_size = r_size r, s_tool = r_tool r, s_userId = r_user_id r\<rparr>"
    have short: "\<not> renderable ?h ?s"
      using assms(2) Some by (simp add: degenerate_row_def renderable_def stroke_points_def)
    have agree: "\<forall>a \<in> set (stroke_addrs (strokes st)). ?h a = heap st a"
      using addrs by auto
    have "heap ?st2 = ?h" "strokesRef ?st2 = strokes st @ [?s]"
      using Some by (simp_all add: onInsert_eq)
    then show ?thesis
      using committed_snoc_skip [OF short, of "strokes st"] committed_heap_cong [OF agree]
      by (auto simp add: ref)
  qed
  have sc: "\<And>cv d. scene cv (remoteCursors st) ?st2 d = scene cv (remoteCursors st) st d"
    and sp: "\<And>p. scene_path (remoteCursors st) ?st2 p = scene_path (remoteCursors st) st p"
    using scene_cong [of ?st2 st] com pend refs by simp_all
  have canv: "canvasRef (repaint (remoteCursors st) ?st2) = canvasRef (repaint (remoteCursors st) st)"
    by (rule repaint_canvas_cong [OF cvs(1) sc sp])
  have "step (RemoteInsert r) st
          = Inr ((repaint (remoteCursors st) ?st2)\<lparr>strokes_dirty := False, cursors_dirty := False\<rparr>)"
    using dirty cvs(2) by (simp add: step_def flush_eq)
  with canv len show ?thesis by (simp add: redrawAll_repaint)
qed

theorem remote_degenerate_insert_not_drawn_witness:
  "inv_wb demo
   \<and> degenerate_row \<lparr>r_id = ''s1'', r_points = Some [\<lparr>px = 3, py = 4\<rparr>], r_color = ''#0000ff'',
                      r_size = 2, r_tool = ''pen'', r_user_id = ''U2''\<rparr>
   \<and> (\<exists>st' st''.
         step (RemoteInsert \<lparr>r_id = ''s1'', r_points = Some [\<lparr>px = 3, py = 4\<rparr>],
                 r_color = ''#0000ff'', r_size = 2, r_tool = ''pen'', r_user_id = ''U2''\<rparr>) demo
           = Inr st'
         \<and> length (strokes st') = Suc (length (strokes demo))
         \<and> redrawAll (remoteCursors demo) demo = Inr st''
         \<and> canvasRef st' = canvasRef st'')"
proof -
  have i: "inv_wb demo" by (simp add: demo_def inv_mounted)
  have d: "degenerate_row \<lparr>r_id = ''s1'', r_points = Some [\<lparr>px = 3, py = 4\<rparr>],
             r_color = ''#0000ff'', r_size = 2, r_tool = ''pen'', r_user_id = ''U2''\<rparr>"
    by (simp add: degenerate_row_def)
  from i d remote_degenerate_insert_not_drawn [OF i d] show ?thesis by blast
qed


lemma demo_drawn_canvas:
  "canvasRef demo_drawn = Some demo_canvas" "ctx demo_canvas = Some demo_ctx"
  by (simp_all add: demo_drawn_def demo_def mounted_def demo_canvas_def)

lemma demo_drawn_inv: "inv_wb demo_drawn"
  by (simp add: inv_wb_def store_ok_def demo_drawn_def demo_def mounted_def demo_stroke_def)


lemmas eval_defs = step_def flush_eq handlePointerDown_def
      handlePointerMove_def handlePointerUp_def commitStroke_def append_stroke_def alloc_def
      Let_def drawSegment_Some onDelete_def getPointFromEvent_def demo_canvas_def
      paint_segment_def segment_paint_def repaint_def scene_def scene_path_def
      tool_style_def polyline_def pending_points_def pending_ok_def pending_ds_def
      pending_path_def pending_paints_def cursors_ds_def cursors_path_def background_def
      base_ds_def demo_ctx_def default_ds_def renderable_def stroke_points_def
      stroke_style_def onInsert_eq loadStrokes_settled_def stroke_of_row_eq


section \<open>Local commit\<close>

text \<open>
  C3. The local commit appends the stroke to the committed list in the same step that
  hands the row to the persistence port, so the stroke is in the list while the write is
  pending; when the write then fails, the error is written to the console and the list
  and the submitted rows stay as they were: nothing is rolled back and nothing is retried.
\<close>

theorem commit_optimistic_no_rollback:
  assumes "inv_wb st" and "canvasRef st = Some cv" and "isDrawingRef st"
    and "currentPointsRef st = Some a"
  shows "\<exists>st1 st2 s row.
           step (PointerUp now) st = Inr st1
           \<and> strokes st1 = strokes st @ [s] \<and> s_points s = Some a
           \<and> inserted st1 = inserted st @ [row] \<and> i_points row = heap st a
           \<and> pending_writes st1 = Suc (pending_writes st)
           \<and> step (InsertSettled (Some e)) st1 = Inr st2
           \<and> strokes st2 = strokes st1 \<and> inserted st2 = inserted st1
           \<and> console st2 = console st1 @ [''Error saving stroke: '' @ e]"
proof -
  from assms(1,3,4) have ne: "heap st a \<noteq> []"
    by (simp add: inv_wb_def store_ok_def)
  from assms(1) have clean: "\<not> cursors_dirty st" by (simp add: inv_wb_def)
  let ?s = "\<lparr>s_id = ''local-'' @ string_of_nat now, s_points = Some a,
              s_color = currentColorRef st, s_size = brushSizeRef st,
              s_tool = currentToolRef st, s_userId = userId st\<rparr>"
  let ?row = "\<lparr>i_room_id = roomId st, i_user_id = userId st, i_user_name = userName st,
                i_user_color = userColor st, i_points = heap st a,
                i_color = currentColorRef st, i_size = brushSizeRef st,
                i_tool = currentToolRef st\<rparr>"
  let ?h = "handlePointerUp now st"
  have h: "handle (PointerUp now) st = Inr ?h" using assms(2) by simp
  have hd: "strokes_dirty ?h" "strokes ?h = strokes st @ [?s]" "inserted ?h = inserted st @ [?row]"
    "pending_writes ?h = Suc (pending_writes st)" "console ?h = console st"
    using assms(3,4) ne
    by (simp_all add: handlePointerUp_def commitStroke_def append_stroke_def Let_def)
  let ?st1 = "(repaint (remoteCursors ?h) (?h\<lparr>strokesRef := strokes ?h\<rparr>))
                \<lparr>strokes_dirty := False, cursors_dirty := False\<rparr>"
  have s1: "step (PointerUp now) st = Inr ?st1"
    using h hd(1) by (simp add: step_def flush_eq)
  have f1: "strokes ?st1 = strokes st @ [?s]" "inserted ?st1 = inserted st @ [?row]"
    "pending_writes ?st1 = Suc (pending_writes st)"
    using hd by simp_all
  let ?st2 = "commitStroke_settled (Some e) ?st1"
  have s2: "step (InsertSettled (Some e)) ?st1 = Inr ?st2"
    using f1(3) by (simp add: step_def flush_eq commitStroke_settled_def)
  have f2: "strokes ?st2 = strokes ?st1" "inserted ?st2 = inserted ?st1"
    "console ?st2 = console ?st1 @ [''Error saving stroke: '' @ e]"
    by (simp_all add: commitStroke_settled_def)
  have "step (PointerUp now) st = Inr ?st1
           \<and> strokes ?st1 = strokes st @ [?s] \<and> s_points ?s = Some a
           \<and> inserted ?st1 = inserted st @ [?row] \<and> i_points ?row = heap st a
           \<and> pending_writes ?st1 = Suc (pending_writes st)
           \<and> step (InsertSettled (Some e)) ?st1 = Inr ?st2
           \<and> strokes ?st2 = strokes ?st1 \<and> inserted ?st2 = inserted ?st1
           \<and> console ?st2 = console ?st1 @ [''Error saving stroke: '' @ e]"
    using s1 f1 s2 f2 by simp
  then show ?thesis by (intro exI)
qed

theorem commit_optimistic_no_rollback_witness:
  "inv_wb demo_drawn \<and> canvasRef demo_drawn = Some demo_canvas \<and> isDrawingRef demo_drawn
   \<and> currentPointsRef demo_drawn = Some 1
   \<and> (\<exists>st1 st2 s row.
           step (PointerUp 99) demo_drawn = Inr st1
           \<and> strokes st1 = strokes demo_drawn @ [s] \<and> s_points s = Some 1
           \<and> inserted st1 = inserted demo_drawn @ [row] \<and> i_points row = heap demo_drawn 1
           \<and> pending_writes st1 = Suc (pending_writes demo_drawn)
           \<and> step (InsertSettled (Some ''offline'')) st1 = Inr st2
           \<and> strokes st2 = strokes st1 \<and> inserted st2 = inserted st1
           \<and> console st2 = console st1 @ [''Error saving stroke: '' @ ''offline''])"
proof -
  have d: "isDrawingRef demo_drawn" and p: "currentPointsRef demo_drawn = Some 1"
    by (simp_all add: demo_drawn_def)
  from commit_optimistic_no_rollback [OF demo_drawn_inv demo_drawn_canvas(1) d p, of 99 "''offline''"]
  show ?thesis using demo_drawn_inv demo_drawn_canvas(1) d p by blast
qed

text \<open>
  C1, as the code has it. The guard of \<open>commitStroke\<close> returns only when there is no point
  array or the array is empty; then pointer-up appends nothing and submits nothing.
\<close>

theorem empty_gesture_discarded:
  assumes "currentPointsRef st = None \<or> (\<exists>a. currentPointsRef st = Some a \<and> heap st a = [])"
  shows "strokes (handlePointerUp now st) = strokes st
         \<and> strokesRef (handlePointerUp now st) = strokesRef st
         \<and> inserted (handlePointerUp now st) = inserted st
         \<and> pending_writes (handlePointerUp now st) = pending_writes st"
  using assms by (auto simp add: handlePointerUp_def commitStroke_def)

theorem empty_gesture_discarded_witness:
  "(currentPointsRef stalled = None
      \<or> (\<exists>a. currentPointsRef stalled = Some a \<and> heap stalled a = []))
   \<and> isDrawingRef stalled
   \<and> strokes (handlePointerUp 7 stalled) = strokes stalled
   \<and> strokesRef (handlePointerUp 7 stalled) = strokesRef stalled
   \<and> inserted (handlePointerUp 7 stalled) = inserted stalled
   \<and> pending_writes (handlePointerUp 7 stalled) = pending_writes stalled"
proof -
  have n: "currentPointsRef stalled = None" and d: "isDrawingRef stalled"
    by (simp_all add: stalled_def demo_def mounted_def)
  then have h: "currentPointsRef stalled = None
      \<or> (\<exists>a. currentPointsRef stalled = Some a \<and> heap stalled a = [])" by simp
  from empty_gesture_discarded [OF h, of 7] h d show ?thesis by simp
qed

text \<open>
  C1, as stated, fails: pointer-down records one point, and pointer-up without a move
  commits that one-point stroke and submits it.
\<close>

theorem one_point_gesture_committed:
  "currentPointsRef tap = Some 0 \<and> length (heap tap 0) = 1 \<and> isDrawingRef tap
   \<and> length (strokes tap) = 0 \<and> length (inserted tap) = 0
   \<and> length (strokes (handlePointerUp 7 tap)) = 1
   \<and> length (inserted (handlePointerUp 7 tap)) = 1"
  by (simp add: tap_def handlePointerDown_def handlePointerUp_def commitStroke_def
      append_stroke_def alloc_def Let_def demo_def mounted_def)

section \<open>A gesture from pointer-down to pointer-up\<close>

lemma gesture_moves_same_rect:
  "same_rect cv cv' \<Longrightarrow> gesture_moves cv' es = gesture_moves cv es"
  by (induction cv es rule: gesture_moves.induct)
     (simp_all add: same_rect_def getPointFromEvent_def)

lemma paint_segment_canvas:
  assumes "canvasRef st = Some cv"
  shows "\<exists>cv'. canvasRef (paint_segment f t st) = Some cv' \<and> same_rect cv cv'"
  using assms by (simp add: paint_segment_def same_rect_def split: option.splits)

lemma gesture_step:
  assumes "inv_wb st" and "canvasRef st = Some cv" and "isDrawingRef st"
    and "currentPointsRef st = Some a" and "mid_gesture e"
  shows "\<exists>st' cv'. step e st = Inr st' \<and> inv_wb st' \<and> canvasRef st' = Some cv'
           \<and> same_rect cv cv' \<and> isDrawingRef st' \<and> currentPointsRef st' = Some a
           \<and> heap st' a = heap st a @ gesture_moves cv [e]
           \<and> currentColorRef st' = live_color [e] (currentColorRef st)
           \<and> currentToolRef st' = live_tool [e] (currentToolRef st)
           \<and> brushSizeRef st' = live_size [e] (brushSizeRef st)
           \<and> strokes st' = strokes st \<and> inserted st' = inserted st"
proof -
  from step_ok [OF assms(1), of e] obtain st' where
    s: "step e st = Inr st'" and i: "inv_wb st'" by blast
  from assms(1) have clean: "\<not> strokes_dirty st" "\<not> cursors_dirty st"
    by (simp_all add: inv_wb_def)
  from assms(1,3,4) have ne: "heap st a \<noteq> []" by (simp add: inv_wb_def store_ok_def)
  have "\<exists>cv'. canvasRef st' = Some cv'
           \<and> same_rect cv cv' \<and> isDrawingRef st' \<and> currentPointsRef st' = Some a
           \<and> heap st' a = heap st a @ gesture_moves cv [e]
           \<and> currentColorRef st' = live_color [e] (currentColorRef st)
           \<and> currentToolRef st' = live_tool [e] (currentToolRef st)
           \<and> brushSizeRef st' = live_size [e] (brushSizeRef st)
           \<and> strokes st' = strokes st \<and> inserted st' = inserted st"
  proof (cases e)
    case (PointerMove cx cy now)
    let ?pt = "getPointFromEvent cv cx cy"
    define T where "T = (if cursorChannel st
                 then tracked st @
                        [\<lparr>user_id = userId st, user_name = userName st,
                          user_color = userColor st, p_x = px ?pt, p_y = py ?pt,
                          p_timestamp = now\<rparr>]
                 else tracked st)"
    have T: "(if cursorChannel st
                 then st\<lparr>tracked := tracked st @
                        [\<lparr>user_id = userId st, user_name = userName st,
                          user_color = userColor st, p_x = px ?pt, p_y = py ?pt,
                          p_timestamp = now\<rparr>]\<rparr>
                 else st) = st\<lparr>tracked := T\<rparr>"
      by (simp add: T_def)
    let ?st2 = "st\<lparr>tracked := T, heap := (heap st)(a := heap st a @ [?pt])\<rparr>"
    have h: "handle e st = Inr (paint_segment (last (heap st a)) ?pt ?st2)"
      using PointerMove assms(2,3,4) ne
      by (simp add: handlePointerMove_def Let_def T drawSegment_Some)
    have c2: "canvasRef ?st2 = Some cv" using assms(2) by simp
    from paint_segment_canvas [OF c2, of "last (heap st a)" ?pt] obtain cv' where
      cv': "canvasRef (paint_segment (last (heap st a)) ?pt ?st2) = Some cv'" "same_rect cv cv'"
      by blast
    have st': "st' = paint_segment (last (heap st a)) ?pt ?st2"
      using s h clean by (simp add: step_def flush_eq)
    show ?thesis
      using cv' assms(3,4) PointerMove unfolding st' by simp
  next
    case (PropTool t)
    with s clean have "st' = st\<lparr>currentToolRef := t\<rparr>" by (simp add: step_def flush_eq)
    with assms PropTool show ?thesis by (simp add: same_rect_def)
  next
    case (PropColor c)
    with s clean have "st' = st\<lparr>currentColorRef := c\<rparr>" by (simp add: step_def flush_eq)
    with assms PropColor show ?thesis by (simp add: same_rect_def)
  next
    case (PropSize n)
    with s clean have "st' = st\<lparr>brushSizeRef := n\<rparr>" by (simp add: step_def flush_eq)
    with assms PropSize show ?thesis by (simp add: same_rect_def)
  qed (use assms(5) in simp_all)
  with s i show ?thesis by blast
qed

lemma live_Cons:
  "live_color (e # es) c = live_color es (live_color [e] c)"
  "live_tool (e # es) t = live_tool es (live_tool [e] t)"
  "live_size (e # es) n = live_size es (live_size [e] n)"
  "gesture_moves cv (e # es) = gesture_moves cv [e] @ gesture_moves cv es"
  by (cases e; simp)+

lemma gesture_run:
  assumes "inv_wb st" and "canvasRef st = Some cv" and "isDrawingRef st"
    and "currentPointsRef st = Some a" and "list_all mid_gesture es"
  shows "\<exists>st1 cv1. run es st = Inr st1 \<and> inv_wb st1 \<and> canvasRef st1 = Some cv1
           \<and> same_rect cv cv1 \<and> isDrawingRef st1 \<and> currentPointsRef st1 = Some a
           \<and> heap st1 a = heap st a @ gesture_moves cv es
           \<and> currentColorRef st1 = live_color es (currentColorRef st)
           \<and> currentToolRef st1 = live_tool es (currentToolRef st)
           \<and> brushSizeRef st1 = live_size es (brushSizeRef st)
           \<and> strokes st1 = strokes st \<and> inserted st1 = inserted st"
  using assms
proof (induction es arbitrary: st cv)
  case Nil
  then show ?case by (simp add: same_rect_def)
next
  case (Cons e es)
  from Cons.prems(5) have me: "mid_gesture e" and mes: "list_all mid_gesture es" by simp_all
  from gesture_step [OF Cons.prems(1-4) me] obtain st' cv' where
    s: "step e st = Inr st'" and i: "inv_wb st'" and c: "canvasRef st' = Some cv'"
    and r: "same_rect cv cv'" and d: "isDrawingRef st'" and p: "currentPointsRef st' = Some a"
    and h: "heap st' a = heap st a @ gesture_moves cv [e]"
    and col: "currentColorRef st' = live_color [e] (currentColorRef st)"
    and tool: "currentToolRef st' = live_tool [e] (currentToolRef st)"
    and sz: "brushSizeRef st' = live_size [e] (brushSizeRef st)"
    and ss: "strokes st' = strokes st" and ins: "inserted st' = inserted st"
    by blast
  from Cons.IH [OF i c d p mes] obtain st1 cv1 where
    r1: "run es st' = Inr st1" and i1: "inv_wb st1" and c1: "canvasRef st1 = Some cv1"
    and rr: "same_rect cv' cv1" and d1: "isDrawingRef st1" and p1: "currentPointsRef st1 = Some a"
    and h1: "heap st1 a = heap st' a @ gesture_moves cv' es"
    and col1: "currentColorRef st1 = live_color es (currentColorRef st')"
    and tool1: "currentToolRef st1 = live_tool es (currentToolRef st')"
    and sz1: "brushSizeRef st1 = live_size es (brushSizeRef st')"
    and ss1: "strokes st1 = strokes st'" and ins1: "inserted st1 = inserted st'"
    by blast
  have run: "run (e # es) st = Inr st1" using s r1 by simp
  have rect: "same_rect cv cv1" using r rr by (simp add: same_rect_def)
  have heap: "heap st1 a = heap st a @ gesture_moves cv (e # es)"
    using h h1 gesture_moves_same_rect [OF r, of es] live_Cons(4) [of cv e es] by simp
  have "run (e # es) st = Inr st1 \<and> inv_wb st1 \<and> canvasRef st1 = Some cv1
           \<and> same_rect cv cv1 \<and> isDrawingRef st1 \<and> currentPointsRef st1 = Some a
           \<and> heap st1 a = heap st a @ gesture_moves cv (e # es)
           \<and> currentColorRef st1 = live_color (e # es) (currentColorRef st)
           \<and> currentToolRef st1 = live_tool (e # es) (currentToolRef st)
           \<and> brushSizeRef st1 = live_size (e # es) (brushSizeRef st)
           \<and> strokes st1 = strokes st \<and> inserted st1 = inserted st"
    using run i1 c1 rect d1 p1 heap col col1 tool tool1 sz sz1 ss ss1 ins ins1
      live_Cons(1) [of e es] live_Cons(2) [of e es] live_Cons(3) [of e es]
    by simp
  then show ?case by (intro exI)
qed

lemma pointer_down_starts:
  assumes "inv_wb st" and "canvasRef st = Some cv" and "button = None \<or> button = Some 0"
  shows "\<exists>st'. step (PointerDown button cx cy) st = Inr st' \<and> inv_wb st'
           \<and> canvasRef st' = Some cv \<and> isDrawingRef st'
           \<and> currentPointsRef st' = Some (next_addr st)
           \<and> heap st' (next_addr st) = [getPointFromEvent cv cx cy]
           \<and> currentColorRef st' = currentColorRef st
           \<and> currentToolRef st' = currentToolRef st
           \<and> brushSizeRef st' = brushSizeRef st
           \<and> strokes st' = strokes st \<and> inserted st' = inserted st"
proof -
  from step_ok [OF assms(1), of "PointerDown button cx cy"] obtain st' where
    s: "step (PointerDown button cx cy) st = Inr st'" and i: "inv_wb st'" by blast
  from assms(1) have clean: "\<not> strokes_dirty st" "\<not> cursors_dirty st"
    by (simp_all add: inv_wb_def)
  have "st' = st\<lparr>isDrawingRef := True,
                heap := (heap st)(next_addr st := [getPointFromEvent cv cx cy]),
                next_addr := Suc (next_addr st), currentPointsRef := Some (next_addr st)\<rparr>"
    using s assms(2,3) clean
    by (auto simp add: step_def flush_eq handlePointerDown_def alloc_def Let_def)
  with s i assms(2) show ?thesis by simp
qed

text \<open>
  C5. A gesture is a pointer-down, then any moves and changes of tool, colour or size, then
  a pointer-up. The stroke the pointer-up appends and the row it submits carry the tool,
  colour and size that are live when it runs, that is the last values set during the
  gesture, and all the recorded points: a colour changed in mid-stroke colours the whole
  committed stroke.
\<close>

theorem commit_uses_values_at_finalize:
  assumes "inv_wb st0" and "canvasRef st0 = Some cv" and "button = None \<or> button = Some 0"
    and "list_all mid_gesture es"
  shows "\<exists>st1 st2 s row a.
           run (PointerDown button cx cy # es) st0 = Inr st1
           \<and> step (PointerUp now) st1 = Inr st2
           \<and> strokes st2 = strokes st0 @ [s]
           \<and> s_color s = live_color es (currentColorRef st0)
           \<and> s_tool s = live_tool es (currentToolRef st0)
           \<and> s_size s = live_size es (brushSizeRef st0)
           \<and> s_points s = Some a
           \<and> heap st2 a = getPointFromEvent cv cx cy # gesture_moves cv es
           \<and> inserted st2 = inserted st0 @ [row]
           \<and> i_color row = live_color es (currentColorRef st0)
           \<and> i_tool row = live_tool es (currentToolRef st0)
           \<and> i_size row = live_size es (brushSizeRef st0)
           \<and> i_points row = getPointFromEvent cv cx cy # gesture_moves cv es"
proof -
  let ?a = "next_addr st0"
  from pointer_down_starts [OF assms(1-3), of cx cy] obtain st' where
    s: "step (PointerDown button cx cy) st0 = Inr st'" and i: "inv_wb st'"
    and c: "canvasRef st' = Some cv" and d: "isDrawingRef st'"
    and p: "currentPointsRef st' = Some ?a"
    and h: "heap st' ?a = [getPointFromEvent cv cx cy]"
    and col: "currentColorRef st' = currentColorRef st0"
    and tool: "currentToolRef st' = currentToolRef st0"
    and sz: "brushSizeRef st' = brushSizeRef st0"
    and ss: "strokes st' = strokes st0" and ins: "inserted st' = inserted st0"
    by blast
  from gesture_run [OF i c d p assms(4)] obtain st1 cv1 where
    r1: "run es st' = Inr st1" and i1: "inv_wb st1" and c1: "canvasRef st1 = Some cv1"
    and d1: "isDrawingRef st1" and p1: "currentPointsRef st1 = Some ?a"
    and h1: "heap st1 ?a = heap st' ?a @ gesture_moves cv es"
    and col1: "currentColorRef st1 = live_color es (currentColorRef st')"
    and tool1: "currentToolRef st1 = live_tool es (currentToolRef st')"
    and sz1: "brushSizeRef st1 = live_size es (brushSizeRef st')"
    and ss1: "strokes st1 = strokes st'" and ins1: "inserted st1 = inserted st'"
    by blast
  have run: "run (PointerDown button cx cy # es) st0 = Inr st1" using s r1 by simp
  have ne: "heap st1 ?a \<noteq> []" using h h1 by simp
  let ?s = "\<lparr>s_id = ''local-'' @ string_of_nat now, s_points = Some ?a,
              s_color = currentColorRef st1, s_size = brushSizeRef st1,
              s_tool = currentToolRef st1, s_userId = userId st1\<rparr>"
  let ?row = "\<lparr>i_room_id = roomId st1, i_user_id = userId st1, i_user_name = userName st1,
                i_user_color = userColor st1, i_points = heap st1 ?a,
                i_color = currentColorRef st1, i_size = brushSizeRef st1,
                i_tool = currentToolRef st1\<rparr>"
  let ?h = "handlePointerUp now st1"
  have hu: "handle (PointerUp now) st1 = Inr ?h" using c1 by simp
  have hd: "strokes_dirty ?h" "strokes ?h = strokes st1 @ [?s]"
    "inserted ?h = inserted st1 @ [?row]" "heap ?h = heap st1"
    using d1 p1 ne
    by (simp_all add: handlePointerUp_def commitStroke_def append_stroke_def Let_def)
  let ?st2 = "(repaint (remoteCursors ?h) (?h\<lparr>strokesRef := strokes ?h\<rparr>))
                \<lparr>strokes_dirty := False, cursors_dirty := False\<rparr>"
  have s2: "step (PointerUp now) st1 = Inr ?st2"
    using hu hd(1) by (simp add: step_def flush_eq)
  have f2: "strokes ?st2 = strokes st1 @ [?s]" "inserted ?st2 = inserted st1 @ [?row]"
    "heap ?st2 = heap st1"
    using hd by simp_all
  have "run (PointerDown button cx cy # es) st0 = Inr st1
           \<and> step (PointerUp now) st1 = Inr ?st2
           \<and> strokes ?st2 = strokes st0 @ [?s]
           \<and> s_color ?s = live_color es (currentColorRef st0)
           \<and> s_tool ?s = live_tool es (currentToolRef st0)
           \<and> s_size ?s = live_size es (brushSizeRef st0)
           \<and> s_points ?s = Some ?a
           \<and> heap ?st2 ?a = getPointFromEvent cv cx cy # gesture_moves cv es
           \<and> inserted ?st2 = inserted st0 @ [?row]
           \<and> i_color ?row = live_color es (currentColorRef st0)
           \<and> i_tool ?row = live_tool es (currentToolRef st0)
           \<and> i_size ?row = live_size es (brushSizeRef st0)
           \<and> i_points ?row = getPointFromEvent cv cx cy # gesture_moves cv es"
    using run s2 f2 ss ss1 ins ins1 col col1 tool tool1 sz sz1 h h1 by simp
  then show ?thesis by (intro exI)
qed

theorem commit_uses_values_at_finalize_witness:
  "inv_wb demo \<and> canvasRef demo = Some demo_canvas
   \<and> list_all mid_gesture [PointerMove 20 30 1, PropColor ''#0000ff'', PointerMove 30 40 2]
   \<and> currentColorRef demo = ''#ff0000''
   \<and> (\<exists>st1 st2 s row a.
         run (PointerDown None 15 25
                # [PointerMove 20 30 1, PropColor ''#0000ff'', PointerMove 30 40 2]) demo = Inr st1
         \<and> step (PointerUp 9) st1 = Inr st2
         \<and> strokes st2 = strokes demo @ [s]
         \<and> s_color s = ''#0000ff'' \<and> s_tool s = ''pen'' \<and> s_size s = 4
         \<and> s_points s = Some a
         \<and> heap st2 a = [\<lparr>px = 5, py = 5\<rparr>, \<lparr>px = 10, py = 10\<rparr>, \<lparr>px = 20, py = 20\<rparr>]
         \<and> inserted st2 = inserted demo @ [row]
         \<and> i_color row = ''#0000ff'' \<and> i_tool row = ''pen'' \<and> i_size row = 4
         \<and> i_points row = [\<lparr>px = 5, py = 5\<rparr>, \<lparr>px = 10, py = 10\<rparr>, \<lparr>px = 20, py = 20\<rparr>])"
proof -
  have i: "inv_wb demo" by (simp add: demo_def inv_mounted)
  have c: "canvasRef demo = Some demo_canvas" by (simp add: demo_def mounted_def)
  have b: "(None :: int option) = None \<or> (None :: int option) = Some 0" by simp
  have m: "list_all mid_gesture [PointerMove 20 30 1, PropColor ''#0000ff'', PointerMove 30 40 2]"
    by simp
  have v: "currentColorRef demo = ''#ff0000''" "currentToolRef demo = ''pen''"
    "brushSizeRef demo = 4"
    by (simp_all add: demo_def mounted_def)
  have e: "getPointFromEvent demo_canvas 15 25
             # gesture_moves demo_canvas
                 [PointerMove 20 30 1, PropColor ''#0000ff'', PointerMove 30 40 2]
           = [\<lparr>px = 5, py = 5\<rparr>, \<lparr>px = 10, py = 10\<rparr>, \<lparr>px = 20, py = 20\<rparr>]"
    by (simp add: getPointFromEvent_def demo_canvas_def)
  from commit_uses_values_at_finalize [OF i c b m, of 15 25 9]
  show ?thesis using i c m unfolding e v by simp
qed

section \<open>The committed list\<close>

lemma handle_append_only:
  assumes "inv_wb st" and "handle e st = Inr st1"
  shows "(\<not> replaces_list e \<longrightarrow>
            prefix (strokes st) (strokes st1) \<and> length (strokes st1) \<le> Suc (length (strokes st)))
         \<and> (\<forall>a \<in> set (stroke_addrs (strokes st)). heap st1 a = heap st a)"
proof -
  from assms(1) have fresh: "\<forall>a \<in> set (stroke_addrs (strokes st)). a < next_addr st"
    and cur: "\<And>a. isDrawingRef st \<Longrightarrow> currentPointsRef st = Some a
                \<Longrightarrow> a \<notin> set (stroke_addrs (strokes st)) \<and> heap st a \<noteq> []"
    by (auto simp add: inv_wb_def store_ok_def list_all_iff)
  show ?thesis
  proof (cases e)
    case (PointerDown b cx cy)
    with assms(2) fresh show ?thesis
      by (auto simp add: handlePointerDown_def alloc_def Let_def split: option.splits if_splits)
  next
    case (PointerMove cx cy now)
    with assms(2) cur show ?thesis
      by (auto simp add: handlePointerMove_def Let_def drawSegment_Some
          split: option.splits if_splits)
  next
    case (PointerUp now)
    with assms(2) show ?thesis
      by (auto simp add: handlePointerUp_def commitStroke_def append_stroke_def Let_def
          split: option.splits if_splits)
  next
    case (InsertSettled err)
    with assms(2) show ?thesis
      by (auto simp add: commitStroke_settled_def Let_def split: option.splits if_splits)
  next
    case (RemoteInsert r)
    with assms(2) fresh show ?thesis
      by (auto simp add: onInsert_eq split: option.splits)
  next
    case RemoteDelete
    with assms(2) show ?thesis by (auto simp add: onDelete_def)
  next
    case (LoadSettled err data)
    show ?thesis
    proof (cases "err = None \<and> data \<noteq> None")
      case False
      with LoadSettled assms(2) show ?thesis
        by (auto simp add: loadStrokes_settled_def split: option.splits)
    next
      case True
      then obtain rows where d: "data = Some rows" and e: "err = None" by auto
      from parse_rows_frame [of rows st] obtain ss H N where
        p: "parse_rows rows st = (ss, st\<lparr>heap := H, next_addr := N\<rparr>)"
        and same: "\<forall>a < next_addr st. H a = heap st a"
        by blast
      from LoadSettled assms(2) d e p have "heap st1 = H"
        by (auto simp add: loadStrokes_settled_def)
      with same fresh LoadSettled show ?thesis by auto
    qed
  next
    case (PresenceSync ps)
    with assms(2) show ?thesis by (auto simp add: onPresenceSync_def)
  next
    case (PropTool t)
    with assms(2) show ?thesis by auto
  next
    case (PropColor c)
    with assms(2) show ?thesis by auto
  next
    case (PropSize n)
    with assms(2) show ?thesis by auto
  qed
qed

text \<open>
  C6, as the code has it. In a state the component can reach, every event is processed,
  and unless it is the clear notification or the settled load, which sets the list to the
  loaded rows, the old committed list is a prefix of the new one, which has at most one
  stroke more: remote insert and local commit append at the tail, every other event
  leaves the list alone. No event changes the point array of a stroke that is in the list,
  although a committed stroke shares its array with the gesture that drew it.
\<close>

theorem committed_list_append_only:
  assumes "inv_wb st"
  shows "\<exists>st'. step e st = Inr st' \<and> inv_wb st'
           \<and> (\<not> replaces_list e \<longrightarrow>
                 prefix (strokes st) (strokes st')
                 \<and> length (strokes st') \<le> Suc (length (strokes st)))
           \<and> list_all (\<lambda>a. heap st' a = heap st a) (stroke_addrs (strokes st))"
proof -
  from step_ok [OF assms, of e] obtain st' where
    s: "step e st = Inr st'" and i: "inv_wb st'" by blast
  from s obtain st1 where h: "handle e st = Inr st1" and f: "flush st1 = Inr st'"
    by (auto simp add: step_def split: sum.splits)
  from flush_fields(5,13) [OF f] handle_append_only [OF assms h] s i
  show ?thesis by (simp add: list_all_iff)
qed

theorem committed_list_append_only_witness:
  "inv_wb demo_drawn
   \<and> \<not> replaces_list (RemoteInsert \<lparr>r_id = ''s2'',
          r_points = Some [\<lparr>px = 3, py = 4\<rparr>, \<lparr>px = 5, py = 6\<rparr>], r_color = ''#0000ff'',
          r_size = 2, r_tool = ''eraser'', r_user_id = ''U3''\<rparr>)
   \<and> (\<exists>st'. step (RemoteInsert \<lparr>r_id = ''s2'',
          r_points = Some [\<lparr>px = 3, py = 4\<rparr>, \<lparr>px = 5, py = 6\<rparr>], r_color = ''#0000ff'',
          r_size = 2, r_tool = ''eraser'', r_user_id = ''U3''\<rparr>) demo_drawn = Inr st'
        \<and> inv_wb st'
        \<and> prefix [demo_stroke] (strokes st') \<and> length (strokes st') \<le> 2
        \<and> heap st' 0 = [\<lparr>px = 0, py = 0\<rparr>, \<lparr>px = 10, py = 10\<rparr>, \<lparr>px = 20, py = 5\<rparr>])"
proof -
  have s: "strokes demo_drawn = [demo_stroke]" "stroke_addrs [demo_stroke] = [0]"
    "heap demo_drawn 0 = [\<lparr>px = 0, py = 0\<rparr>, \<lparr>px = 10, py = 10\<rparr>, \<lparr>px = 20, py = 5\<rparr>]"
    by (simp_all add: demo_drawn_def demo_stroke_def)
  from committed_list_append_only [OF demo_drawn_inv, of "RemoteInsert \<lparr>r_id = ''s2'',
          r_points = Some [\<lparr>px = 3, py = 4\<rparr>, \<lparr>px = 5, py = 6\<rparr>], r_color = ''#0000ff'',
          r_size = 2, r_tool = ''eraser'', r_user_id = ''U3''\<rparr>"]
  show ?thesis using demo_drawn_inv by (auto simp add: s demo_stroke_def)
qed

text \<open>
  C6, as stated, fails: clear is not the only operation that breaks the prefix. A stroke
  appended by a remote insert is dropped when the load of the room's strokes settles
  after it with rows that do not hold it.
\<close>

theorem load_replaces_committed_list:
  "map_sum id (length \<circ> strokes) (run [RemoteInsert demo_row] demo) = Inr 1
   \<and> map_sum id strokes (run [RemoteInsert demo_row, LoadSettled None (Some [])] demo) = Inr []"
  by (simp add: demo_row_def demo_def mounted_def eval_defs)

section \<open>Compositing\<close>

lemma committed_paints_composited:
  "list_all2 (composited_as h) (filter (renderable h) ss) (committed_paints h ss d)"
  by (induction ss arbitrary: d)
     (simp_all add: composited_as_def stroke_style_def tool_style_def)

lemma segment_paint_composited: "segment_composited st f t (segment_paint st d f t)"
  by (simp add: segment_composited_def segment_paint_def tool_style_def polyline_def)

text \<open>
  C7. In a full redraw every committed stroke that is drawn is stroked with its own width
  along its own points, in compositing mode \<open>destination-out\<close> when its tool is the
  eraser, and in mode \<open>source-over\<close> with its own colour as stroke style otherwise. The
  incremental segment draw paints its one segment the same way from the current tool,
  colour and size. The eraser never paints with a background colour.
\<close>

theorem eraser_composites_destination_out:
  assumes "canvasRef st = Some cv" and "ctx cv = Some c"
  shows "(\<exists>st' cv' c' committed rest.
            redrawAll cursors st = Inr st' \<and> canvasRef st' = Some cv' \<and> ctx cv' = Some c'
            \<and> surface c' = background cv (ds c) # committed @ rest
            \<and> list_all2 (composited_as (heap st))
                 (filter (renderable (heap st)) (strokesRef st)) committed)
         \<and> (\<exists>st' cv' c' p.
            drawSegment (Some f) t st = Inr st' \<and> canvasRef st' = Some cv' \<and> ctx cv' = Some c'
            \<and> surface c' = surface c @ [p] \<and> segment_composited st f t p)"
proof -
  have a: "\<exists>st' cv' c' committed rest.
            redrawAll cursors st = Inr st' \<and> canvasRef st' = Some cv' \<and> ctx cv' = Some c'
            \<and> surface c' = background cv (ds c) # committed @ rest
            \<and> list_all2 (composited_as (heap st))
                 (filter (renderable (heap st)) (strokesRef st)) committed"
    using assms committed_paints_composited [of "heap st" "strokesRef st" "base_ds (ds c)"]
    by (simp add: redrawAll_repaint repaint_def scene_def Let_def) blast
  have b: "\<exists>st' cv' c' p.
            drawSegment (Some f) t st = Inr st' \<and> canvasRef st' = Some cv' \<and> ctx cv' = Some c'
            \<and> surface c' = surface c @ [p] \<and> segment_composited st f t p"
    using assms segment_paint_composited [of st f t "ds c"]
    by (simp add: drawSegment_Some paint_segment_def)
  from a b show ?thesis by blast
qed

lemma demo_erased_canvas: "canvasRef demo_erased = Some demo_canvas"
  by (simp add: demo_erased_def demo_drawn_def demo_def mounted_def)

lemma demo_erased_renderable:
  "filter (renderable (heap demo_erased)) (strokesRef demo_erased) = [demo_stroke, demo_eraser]"
  by (simp add: demo_erased_def demo_drawn_def demo_def mounted_def renderable_def
      stroke_points_def demo_stroke_def demo_eraser_def)

theorem eraser_composites_destination_out_witness:
  "canvasRef demo_erased = Some demo_canvas \<and> ctx demo_canvas = Some demo_ctx
   \<and> s_tool demo_eraser = ''eraser'' \<and> s_tool demo_stroke = ''pen''
   \<and> currentToolRef demo_erased = ''eraser''
   \<and> (\<exists>st' cv' c' p1 p2 rest.
         redrawAll [] demo_erased = Inr st' \<and> canvasRef st' = Some cv' \<and> ctx cv' = Some c'
         \<and> surface c' = background demo_canvas (ds demo_ctx) # [p1, p2] @ rest
         \<and> composited_as (heap demo_erased) demo_stroke p1
         \<and> composited_as (heap demo_erased) demo_eraser p2)
   \<and> (\<exists>st' cv' c' p.
         drawSegment (Some \<lparr>px = 0, py = 0\<rparr>) \<lparr>px = 3, py = 4\<rparr> demo_erased = Inr st'
         \<and> canvasRef st' = Some cv' \<and> ctx cv' = Some c'
         \<and> surface c' = surface demo_ctx @ [p]
         \<and> segment_composited demo_erased \<lparr>px = 0, py = 0\<rparr> \<lparr>px = 3, py = 4\<rparr> p)"
proof -
  have t: "s_tool demo_eraser = ''eraser''" "s_tool demo_stroke = ''pen''"
    "currentToolRef demo_erased = ''eraser''"
    by (simp_all add: demo_eraser_def demo_stroke_def demo_erased_def)
  note inst = eraser_composites_destination_out [OF demo_erased_canvas demo_drawn_canvas(2),
      of "[]" "\<lparr>px = 0, py = 0\<rparr>" "\<lparr>px = 3, py = 4\<rparr>"]
  from inst obtain st' cv' c' committed rest where
    r: "redrawAll [] demo_erased = Inr st'" "canvasRef st' = Some cv'" "ctx cv' = Some c'"
      "surface c' = background demo_canvas (ds demo_ctx) # committed @ rest"
    and l: "list_all2 (composited_as (heap demo_erased)) [demo_stroke, demo_eraser] committed"
    unfolding demo_erased_renderable by blast
  from l obtain p1 p2 where c: "committed = [p1, p2]"
    and p: "composited_as (heap demo_erased) demo_stroke p1"
      "composited_as (heap demo_erased) demo_eraser p2"
    by (auto simp add: list_all2_Cons1)
  have a: "\<exists>st' cv' c' p1 p2 rest.
         redrawAll [] demo_erased = Inr st' \<and> canvasRef st' = Some cv' \<and> ctx cv' = Some c'
         \<and> surface c' = background demo_canvas (ds demo_ctx) # [p1, p2] @ rest
         \<and> composited_as (heap demo_erased) demo_stroke p1
         \<and> composited_as (heap demo_erased) demo_eraser p2"
    using r c p by blast
  from inst have b: "\<exists>st' cv' c' p.
         drawSegment (Some \<lparr>px = 0, py = 0\<rparr>) \<lparr>px = 3, py = 4\<rparr> demo_erased = Inr st'
         \<and> canvasRef st' = Some cv' \<and> ctx cv' = Some c'
         \<and> surface c' = surface demo_ctx @ [p]
         \<and> segment_composited demo_erased \<lparr>px = 0, py = 0\<rparr> \<lparr>px = 3, py = 4\<rparr> p"
    by blast
  from a b t demo_erased_canvas demo_drawn_canvas(2) show ?thesis by blast
qed

section \<open>Presence sync\<close>

lemma sync_entry_keys:
  "set (map fst (sync_entry uid entry cursors))
     = set (map fst cursors) \<union> set (remote_ids uid [entry])"
  by (auto simp add: sync_entry_def remote_ids_def first_presence_def map_filter_def
      dom_update split: option.splits list.splits)

lemma sync_entry_distinct:
  "distinct (map fst cursors) \<Longrightarrow> distinct (map fst (sync_entry uid entry cursors))"
  by (simp add: sync_entry_def distinct_update split: option.splits list.splits)

lemma set_alist_update: "set (AList.update k v al) \<subseteq> insert (k, v) (set al)"
  by (induction al) auto

lemma sync_entry_keyed:
  "list_all (\<lambda>kc. c_userId (snd kc) = fst kc) cursors
   \<Longrightarrow> list_all (\<lambda>kc. c_userId (snd kc) = fst kc) (sync_entry uid entry cursors)"
proof -
  assume a: "list_all (\<lambda>kc. c_userId (snd kc) = fst kc) cursors"
  have u: "\<And>k (v :: RemoteCursor). c_userId v = k
             \<Longrightarrow> list_all (\<lambda>kc. c_userId (snd kc) = fst kc) (AList.update k v cursors)"
  proof -
    fix k and v :: RemoteCursor
    assume kv: "c_userId v = k"
    have "set (AList.update k v cursors) \<subseteq> insert (k, v) (set cursors)"
      by (rule set_alist_update)
    with a kv show "list_all (\<lambda>kc. c_userId (snd kc) = fst kc) (AList.update k v cursors)"
      by (auto simp add: list_all_iff)
  qed
  show ?thesis
    by (simp add: sync_entry_def a u split: option.splits list.splits)
qed

lemma remote_ids_Cons:
  "remote_ids uid (entry # state) = remote_ids uid [entry] @ remote_ids uid state"
  by (simp add: remote_ids_def map_filter_def)

lemma fold_sync_entry:
  assumes "distinct (map fst acc)" and "list_all (\<lambda>kc. c_userId (snd kc) = fst kc) acc"
  shows "distinct (map fst (fold (sync_entry uid) state acc))
         \<and> set (map fst (fold (sync_entry uid) state acc))
             = set (map fst acc) \<union> set (remote_ids uid state)
         \<and> list_all (\<lambda>kc. c_userId (snd kc) = fst kc) (fold (sync_entry uid) state acc)"
  using assms
proof (induction state arbitrary: acc)
  case Nil
  then show ?case by (simp add: remote_ids_def map_filter_def)
next
  case (Cons entry state)
  have d: "distinct (map fst (sync_entry uid entry acc))"
    by (rule sync_entry_distinct [OF Cons.prems(1)])
  have k: "list_all (\<lambda>kc. c_userId (snd kc) = fst kc) (sync_entry uid entry acc)"
    by (rule sync_entry_keyed [OF Cons.prems(2)])
  from Cons.IH [OF d k] sync_entry_keys [of uid entry acc] remote_ids_Cons [of uid entry state]
  show ?case by (simp add: Un_assoc)
qed

lemma remote_entries_Cons:
  "remote_entries uid (entry # state) = remote_entries uid [entry] @ remote_entries uid state"
  by (simp add: remote_entries_def map_filter_def)

lemma remote_entries_ids: "map fst (remote_entries uid state) = remote_ids uid state"
  by (simp add: remote_entries_def remote_ids_def comp_def filter_map)

lemma sync_entry_map_of:
  "map_of (sync_entry uid entry cursors) = map_of (remote_entries uid [entry] @ cursors)"
  by (auto simp add: sync_entry_def remote_entries_def first_presence_def map_filter_def
      cursor_of_presence_def update_conv' fun_eq_iff map_add_def
      split: option.splits list.splits)

lemma fold_sync_entry_map_of:
  "map_of (fold (sync_entry uid) state acc) = map_of (rev (remote_entries uid state) @ acc)"
proof (induction state arbitrary: acc)
  case Nil
  show ?case by (simp add: remote_entries_def map_filter_def)
next
  case (Cons entry state)
  have "map_of (fold (sync_entry uid) (entry # state) acc)
          = map_of (rev (remote_entries uid state) @ sync_entry uid entry acc)"
    by (simp add: Cons.IH)
  also have "\<dots> = map_of (sync_entry uid entry acc) ++ map_of (rev (remote_entries uid state))"
    by simp
  also have "\<dots> = map_of (remote_entries uid [entry] @ acc)
                     ++ map_of (rev (remote_entries uid state))"
    by (simp only: sync_entry_map_of)
  also have "\<dots> = map_of (rev (remote_entries uid (entry # state)) @ acc)"
    by (simp add: remote_entries_Cons [of uid entry state] remote_entries_def map_filter_def
        first_presence_def split: option.splits list.splits)
  finally show ?case .
qed

lemma remdups_drop_seen: "k \<in> set zs \<Longrightarrow> remdups (ys @ k # zs) = remdups (ys @ zs)"
  by (induction ys) auto

lemma sync_entry_key_order:
  "map fst (sync_entry uid entry cursors) =
     (case remote_ids uid [entry] of
        [] \<Rightarrow> map fst cursors
      | k # rest \<Rightarrow> if k \<in> set (map fst cursors) then map fst cursors
                    else map fst cursors @ [k])"
  by (simp add: sync_entry_def remote_ids_def first_presence_def map_filter_def update_keys
      split: option.splits list.splits)

lemma remote_ids_single_short: "length (remote_ids uid [entry]) \<le> 1"
  by (simp add: remote_ids_def map_filter_def split: option.splits)

lemma fold_sync_entry_key_order:
  assumes "distinct (map fst acc)"
  shows "map fst (fold (sync_entry uid) state acc)
           = rev (remdups (rev (map fst acc @ remote_ids uid state)))"
  using assms
proof (induction state arbitrary: acc)
  case Nil
  then show ?case by (simp add: remote_ids_def map_filter_def distinct_remdups_id)
next
  case (Cons entry state)
  have d: "distinct (map fst (sync_entry uid entry acc))"
    by (rule sync_entry_distinct [OF Cons.prems])
  have ih: "map fst (fold (sync_entry uid) (entry # state) acc)
           = rev (remdups (rev (map fst (sync_entry uid entry acc) @ remote_ids uid state)))"
    using Cons.IH [OF d] by simp
  show ?case
  proof (cases "remote_ids uid [entry]")
    case Nil
    with ih remote_ids_Cons [of uid entry state] show ?thesis
      by (simp add: sync_entry_key_order)
  next
    case (Cons k rest)
    with remote_ids_single_short [of uid entry] have one: "remote_ids uid [entry] = [k]"
      by simp
    show ?thesis
    proof (cases "k \<in> set (map fst acc)")
      case True
      then have "k \<in> set (rev (map fst acc))" by simp
      from remdups_drop_seen [OF this, of "rev (remote_ids uid state)"] ih True one
        remote_ids_Cons [of uid entry state]
      show ?thesis by (simp add: sync_entry_key_order)
    next
      case False
      with ih one remote_ids_Cons [of uid entry state] show ?thesis
        by (simp add: sync_entry_key_order)
    qed
  qed
qed

text \<open>
  C8. The handler of a presence sync replaces the cursor map by one built from the
  delivered snapshot alone. For every connection key the first presence record is taken,
  records of the local user are left out, and the map has exactly one entry for each
  remote user id so obtained, in the order in which the ids first occur. The entry is
  stored under that id and holds the name, colour, position and timestamp of the last
  first record that carries the id.
\<close>

theorem presence_sync_rebuilds_cursors:
  "remoteCursors (onPresenceSync state st) = sync_cursors (userId st) state
   \<and> map_of (sync_cursors uid state) = map_of (rev (remote_entries uid state))
   \<and> map fst (sync_cursors uid state) = rev (remdups (rev (remote_ids uid state)))
   \<and> distinct (map fst (sync_cursors uid state))
   \<and> set (map fst (sync_cursors uid state)) = set (remote_ids uid state)
   \<and> uid \<notin> set (map fst (sync_cursors uid state))
   \<and> length (sync_cursors uid state) = card (set (remote_ids uid state))
   \<and> list_all (\<lambda>kc. c_userId (snd kc) = fst kc) (sync_cursors uid state)"
proof -
  have v: "map_of (sync_cursors uid state) = map_of (rev (remote_entries uid state))"
    using fold_sync_entry_map_of [of uid state "[]"] by (simp add: sync_cursors_def)
  have o: "map fst (sync_cursors uid state) = rev (remdups (rev (remote_ids uid state)))"
    using fold_sync_entry_key_order [of "[]" uid state] by (simp add: sync_cursors_def)
  have f: "distinct (map fst (sync_cursors uid state))
         \<and> set (map fst (sync_cursors uid state)) = set (remote_ids uid state)
         \<and> list_all (\<lambda>kc. c_userId (snd kc) = fst kc) (sync_cursors uid state)"
    using fold_sync_entry [of "[]" uid state] by (simp add: sync_cursors_def)
  then have "card (set (map fst (sync_cursors uid state))) = length (map fst (sync_cursors uid state))"
    using distinct_card by blast
  with f have l: "length (sync_cursors uid state) = card (set (remote_ids uid state))"
    by simp
  have n: "uid \<notin> set (remote_ids uid state)" by (simp add: remote_ids_def)
  have h: "remoteCursors (onPresenceSync state st) = sync_cursors (userId st) state"
    by (simp add: onPresenceSync_def)
  from h v o f l n show ?thesis by simp
qed

theorem presence_sync_rebuilds_cursors_witness:
  "remoteCursors (onPresenceSync demo_presence demo_drawn) =
     [(''U2'', \<lparr>c_userId = ''U2'', c_userName = ''B'', c_userColor = ''#0000ff'',
               c_x = 9, c_y = 9, c_timestamp = 4\<rparr>),
      (''U3'', \<lparr>c_userId = ''U3'', c_userName = ''C'', c_userColor = ''#ff00ff'',
               c_x = 2, c_y = 2, c_timestamp = 3\<rparr>)]
   \<and> map_of (sync_cursors ''U1'' demo_presence) ''U2''
       = Some \<lparr>c_userId = ''U2'', c_userName = ''B'', c_userColor = ''#0000ff'',
               c_x = 9, c_y = 9, c_timestamp = 4\<rparr>
   \<and> map_of (sync_cursors ''U1'' demo_presence) ''U1'' = None
   \<and> map fst (remoteCursors (onPresenceSync demo_presence demo_drawn)) = [''U2'', ''U3'']
   \<and> length (sync_cursors ''U1'' demo_presence) = 2
   \<and> ''U1'' \<notin> set (map fst (sync_cursors ''U1'' demo_presence))
   \<and> set (remote_ids ''U1'' demo_presence) = {''U2'', ''U3''}"
proof -
  have u: "userId demo_drawn = ''U1''" by (simp add: demo_drawn_def demo_def mounted_def)
  have r: "remote_ids ''U1'' demo_presence = [''U2'', ''U3'', ''U2'']"
    by (simp add: remote_ids_def demo_presence_def first_presence_def map_filter_def)
  have e: "rev (remote_entries ''U1'' demo_presence) =
     [(''U2'', \<lparr>c_userId = ''U2'', c_userName = ''B'', c_userColor = ''#0000ff'',
               c_x = 9, c_y = 9, c_timestamp = 4\<rparr>),
      (''U3'', \<lparr>c_userId = ''U3'', c_userName = ''C'', c_userColor = ''#ff00ff'',
               c_x = 2, c_y = 2, c_timestamp = 3\<rparr>),
      (''U2'', \<lparr>c_userId = ''U2'', c_userName = ''B'', c_userColor = ''#0000ff'',
               c_x = 1, c_y = 1, c_timestamp = 2\<rparr>)]"
    by (simp add: remote_entries_def demo_presence_def first_presence_def map_filter_def
        cursor_of_presence_def)
  have c: "card {''U2'', ''U3''} = (2::nat)" by simp
  have k: "sync_cursors ''U1'' demo_presence =
     [(''U2'', \<lparr>c_userId = ''U2'', c_userName = ''B'', c_userColor = ''#0000ff'',
               c_x = 9, c_y = 9, c_timestamp = 4\<rparr>),
      (''U3'', \<lparr>c_userId = ''U3'', c_userName = ''C'', c_userColor = ''#ff00ff'',
               c_x = 2, c_y = 2, c_timestamp = 3\<rparr>)]"
    by (simp add: sync_cursors_def sync_entry_def demo_presence_def)
  from presence_sync_rebuilds_cursors [of demo_presence demo_drawn "''U1''"]
  show ?thesis unfolding u r e using c k by (simp add: insert_commute)
qed

section \<open>Full redraw during a gesture\<close>







end
